theory Spec2Isabelle
  imports Complex_Main
begin

section \<open>Python values used by the pipeline\<close>

text \<open>
  The exceptions the modelled code can raise. A function that can raise returns
  \<open>py_error + 'a\<close>, the exception on the left.
\<close>

datatype py_error = ValueError | TypeError | ZeroDivisionError | KeyError

text \<open>
  A Python \<open>dict\<close> keeps its keys in insertion order: an association list with one
  entry per key. \<open>dict_set\<close> is \<open>d[k] = v\<close> (an existing key keeps its position, a
  new key goes last), \<open>dict_get\<close> is \<open>d.get(k, default)\<close>.
\<close>

type_synonym ('k, 'v) dict = "('k \<times> 'v) list"

fun dict_set :: "'k \<Rightarrow> 'v \<Rightarrow> ('k, 'v) dict \<Rightarrow> ('k, 'v) dict" where
  "dict_set k v [] = [(k, v)]"
| "dict_set k v (p # ps) = (if fst p = k then (k, v) # ps else p # dict_set k v ps)"

definition dict_get :: "('k, 'v) dict \<Rightarrow> 'k \<Rightarrow> 'v \<Rightarrow> 'v" where
  "dict_get d k dflt = (case map_of d k of None \<Rightarrow> dflt | Some v \<Rightarrow> v)"

definition dict_contains :: "('k, 'v) dict \<Rightarrow> 'k \<Rightarrow> bool" where
  "dict_contains d k = (map_of d k \<noteq> None)"

text \<open>
  Strings are lists of characters, a character standing for a code point below 256.
  \<open>split_on c s\<close> is \<open>s.split(c)\<close> for a one-character separator, \<open>strip\<close> is
  \<open>s.strip()\<close> (the characters Python's \<open>str.isspace\<close> accepts below 256), and
  \<open>replace_char a b s\<close> is \<open>s.replace(a, b)\<close> for one-character arguments.
\<close>

fun split_on :: "char \<Rightarrow> string \<Rightarrow> string list" where
  "split_on c [] = [[]]"
| "split_on c (x # xs) =
     (if x = c then [] # split_on c xs
      else (case split_on c xs of
              [] \<Rightarrow> [[x]]
            | w # ws \<Rightarrow> (x # w) # ws))"

definition is_space :: "char \<Rightarrow> bool" where
  "is_space c =
     (let n = (of_char c :: nat)
      in (9 \<le> n \<and> n \<le> 13) \<or> (28 \<le> n \<and> n \<le> 32) \<or> n = 133 \<or> n = 160)"

definition strip :: "string \<Rightarrow> string" where
  "strip s = rev (dropWhile is_space (rev (dropWhile is_space s)))"

definition replace_char :: "char \<Rightarrow> char \<Rightarrow> string \<Rightarrow> string" where
  "replace_char a b s = map (\<lambda>c. if c = a then b else c) s"

section \<open>utils.py\<close>

text \<open>
  \<^verbatim>\<open>divide_into_three(n)\<close>: Python's \<open>//\<close> and \<open>%\<close> round towards minus infinity,
  as \<open>div\<close> and \<open>mod\<close> on \<open>int\<close> do.
\<close>

definition divide_into_three :: "int \<Rightarrow> int \<times> int \<times> int" where
  "divide_into_three n =
     (let part = n div 3;
          remainder = n mod 3
      in if remainder = 0 then (part, part, part)
         else if remainder = 1 then (part + 1, part, part)
         else (part + 1, part + 1, part))"

section \<open>data_preparation.py: the genre vectorizer\<close>

text \<open>
  \<^verbatim>\<open>get_categories()\<close> is imported by both source files and defined in neither; every
  function that calls it takes the category list as its first argument
  \<open>categories\<close>.

  \<^verbatim>\<open>reformat_dict(d)\<close>. The statement of the inner loop is
  \<^verbatim>\<open>genres[g] = genres.get(g, 0) + value if value > 0 else 0\<close>, which Python reads as
  \<^verbatim>\<open>genres[g] = (genres.get(g, 0) + value) if value > 0 else 0\<close>.
\<close>

definition clean_genre :: "string \<Rightarrow> string" where
  "clean_genre g = replace_char (CHR ''-'') (CHR ''_'') (replace_char (CHR '' '') (CHR ''_'') (strip g))"

definition add_genre :: "int \<Rightarrow> (string, int) dict \<Rightarrow> string \<Rightarrow> (string, int) dict" where
  "add_genre val genres g0 =
     (let g = clean_genre g0
      in dict_set g (if val > 0 then dict_get genres g 0 + val else 0) genres)"

definition add_entry :: "(string, int) dict \<Rightarrow> string \<times> int \<Rightarrow> (string, int) dict" where
  "add_entry genres entry = foldl (add_genre (snd entry)) genres (split_on (CHR '','') (fst entry))"

definition reformat_dict :: "string list \<Rightarrow> (string, int) dict \<Rightarrow> (string, int) dict" where
  "reformat_dict categories d =
     (let genres = foldl add_entry [] d;
          missing = filter (\<lambda>k. \<not> dict_contains genres k) categories
      in foldl (\<lambda>acc k. dict_set k 0 acc) genres missing)"

text \<open>
  A category list for the concrete evaluations below: 16 labels, as the genre labels of
  the Goodreads feed read after cleaning. It stands in for the list
  \<^verbatim>\<open>get_categories()\<close> returns, which the sources do not give; every general theorem
  holds for an arbitrary list.
\<close>

definition example_categories :: "string list" where
  "example_categories =
     [''children'', ''comics'', ''graphic'', ''fantasy'', ''paranormal'', ''fiction'',
      ''history'', ''historical_fiction'', ''biography'', ''mystery'', ''thriller'',
      ''crime'', ''non_fiction'', ''poetry'', ''romance'', ''young_adult'']"

section \<open>data_preparation.py: the item priority\<close>

text \<open>
  The \<open>priority\<close> argument is dynamically typed (\<^verbatim>\<open>str | float | None\<close> by its
  annotation, anything at run time): a tagged value. \<open>truthy\<close> is Python's truth value,
  \<open>py_in\<close> is \<^verbatim>\<open>priority in categories\<close> for a list of strings (a value that is not a
  string equals none of them).
\<close>

datatype pyval = PyNone | PyBool bool | PyInt int | PyFloat real | PyStr string

fun truthy :: "pyval \<Rightarrow> bool" where
  "truthy PyNone = False"
| "truthy (PyBool b) = b"
| "truthy (PyInt i) = (i \<noteq> 0)"
| "truthy (PyFloat x) = (x \<noteq> 0)"
| "truthy (PyStr s) = (s \<noteq> [])"

fun is_float :: "pyval \<Rightarrow> bool" where
  "is_float (PyFloat x) = True"
| "is_float v = False"

fun py_in :: "pyval \<Rightarrow> string list \<Rightarrow> bool" where
  "py_in (PyStr s) xs = (s \<in> set xs)"
| "py_in v xs = False"

text \<open>\<^verbatim>\<open>xs.index(x)\<close>: the first position of \<open>x\<close>, ValueError when there is none.\<close>

fun index_of :: "'a list \<Rightarrow> 'a \<Rightarrow> py_error + nat" where
  "index_of [] x = Inl ValueError"
| "index_of (y # ys) x =
     (if y = x then Inr 0
      else (case index_of ys x of Inl e \<Rightarrow> Inl e | Inr i \<Rightarrow> Inr (Suc i)))"

text \<open>\<^verbatim>\<open>np.max\<close> of a row: ValueError on an empty array.\<close>

fun np_max :: "real list \<Rightarrow> py_error + real" where
  "np_max [] = Inl ValueError"
| "np_max (x # xs) = Inr (foldl max x xs)"

text \<open>
  \<^verbatim>\<open>calculate_priority(row, priority)\<close>. \<open>vector\<close> is \<^verbatim>\<open>row["vector"]\<close> (one row of
  category values), \<open>rnd\<close> the number \<^verbatim>\<open>np.random.random()\<close> draws in the probability
  branch. The result \<open>Inr None\<close> is Python's \<open>None\<close>: the function reaches its end
  without a \<^verbatim>\<open>return\<close> when no branch applies.
\<close>

definition calculate_priority ::
  "string list \<Rightarrow> real \<Rightarrow> real list \<Rightarrow> pyval \<Rightarrow> py_error + real option" where
  "calculate_priority categories rnd vector priority =
     (if \<not> truthy priority then Inr (Some 0)
      else if is_float priority then
        (case priority of
           PyFloat p \<Rightarrow> Inr (Some (if rnd < p then 1 else 0))
         | _ \<Rightarrow> Inl TypeError)
      else if py_in priority categories then
        (case priority of
           PyStr name \<Rightarrow>
             (case index_of categories name of
                Inl e \<Rightarrow> Inl e
              | Inr cat_index \<Rightarrow>
                  (case np_max vector of
                     Inl e \<Rightarrow> Inl e
                   | Inr max_value \<Rightarrow>
                       (let max_indices = filter (\<lambda>i. vector ! i = max_value) [0..<length vector]
                        in Inr (Some (if cat_index \<in> set max_indices \<and> \<not> list_all (\<lambda>x. x = 0) vector
                                      then 1 else 0)))))
         | _ \<Rightarrow> Inl TypeError)
      else Inr None)"

section \<open>data_preparation.py: the user sampler\<close>

text \<open>
  A row of the interactions table, then the row after the merge that adds
  \<open>book_count\<close>, then the row with the \<open>ignorant\<close> column. A column that pandas can
  leave as NaN (a left merge without a match, a \<^verbatim>\<open>map\<close> through a dict without the
  key) holds an option, \<open>None\<close> for NaN.
\<close>

record interaction =
  user_id :: int
  book_id :: int
  rating :: real
  is_read :: int
  is_reviewed :: int

record counted = interaction +
  book_count :: "int option"

record sampled = counted +
  ignorant :: "bool option"

text \<open>A comparison with NaN is false.\<close>

definition nan_le :: "int option \<Rightarrow> int \<Rightarrow> bool" where
  "nan_le c t = (case c of None \<Rightarrow> False | Some n \<Rightarrow> n \<le> t)"

definition nan_gt :: "int option \<Rightarrow> int \<Rightarrow> bool" where
  "nan_gt c t = (case c of None \<Rightarrow> False | Some n \<Rightarrow> n > t)"

text \<open>\<^verbatim>\<open>Series.drop_duplicates()\<close>: the first occurrence of each value stays, in order.\<close>

fun drop_duplicates :: "'a list \<Rightarrow> 'a list" where
  "drop_duplicates [] = []"
| "drop_duplicates (x # xs) = x # filter (\<lambda>y. y \<noteq> x) (drop_duplicates xs)"

text \<open>
  \<^verbatim>\<open>groupby("user_id")["book_id"].count().reset_index()\<close>: one row per user, sorted by
  user, with the number of the user's rows.
\<close>

definition groupby_count :: "interaction list \<Rightarrow> (int \<times> int) list" where
  "groupby_count rows =
     map (\<lambda>u. (u, int (length (filter (\<lambda>r. user_id r = u) rows))))
       (sort (remdups (map user_id rows)))"

text \<open>\<^verbatim>\<open>filtered_df.merge(tmp_df, on="user_id", how="left")\<close>, the keys of \<open>tmp_df\<close> unique.\<close>

definition merge_book_count :: "interaction list \<Rightarrow> (int \<times> int) list \<Rightarrow> counted list" where
  "merge_book_count rows tmp_df =
     map (\<lambda>r. \<lparr>user_id = user_id r, book_id = book_id r, rating = rating r, is_read = is_read r,
               is_reviewed = is_reviewed r, book_count = map_of tmp_df (user_id r)\<rparr>) rows"

text \<open>
  \<^verbatim>\<open>Series.sample(n=n, random_state=seed)\<close>. pandas draws positions with
  \<^verbatim>\<open>RandomState(seed).choice(len, size=n, replace=False)\<close> and takes the values at these
  positions; it raises ValueError for a negative \<open>n\<close> and for an \<open>n\<close> above the
  length. The generator is the argument \<open>choice\<close>: \<open>choice seed len n\<close> is the list of
  positions it draws, a function of the integer seed, the length and the size.
  \<open>choice_ok\<close> says what numpy guarantees of it: \<open>n\<close> distinct positions below \<open>len\<close>.
\<close>

type_synonym rng = "int \<Rightarrow> nat \<Rightarrow> nat \<Rightarrow> nat list"

definition choice_ok :: "rng \<Rightarrow> bool" where
  "choice_ok choice =
     (\<forall>seed len n. n \<le> len \<longrightarrow>
        length (choice seed len n) = n \<and> distinct (choice seed len n) \<and>
        (\<forall>i \<in> set (choice seed len n). i < len))"

definition take_positions :: "'a list \<Rightarrow> nat list \<Rightarrow> 'a list" where
  "take_positions xs ps = map (\<lambda>i. xs ! i) ps"

definition pd_sample :: "rng \<Rightarrow> int \<Rightarrow> int \<Rightarrow> 'a list \<Rightarrow> py_error + 'a list" where
  "pd_sample choice seed n xs =
     (if n < 0 then Inl ValueError
      else if int (length xs) < n then Inl ValueError
      else Inr (take_positions xs (choice seed (length xs) (nat n))))"

text \<open>\<^verbatim>\<open>Series.sample(frac=1, random_state=seed)\<close>: all positions, shuffled.\<close>

definition pd_shuffle :: "rng \<Rightarrow> int \<Rightarrow> 'a list \<Rightarrow> 'a list" where
  "pd_shuffle choice seed xs = take_positions xs (choice seed (length xs) (length xs))"

text \<open>
  Python's \<^verbatim>\<open>round(x)\<close> rounds a half to the even neighbour; \<open>xs[:h]\<close> and \<open>xs[h:]\<close>
  count a negative \<open>h\<close> from the end. The product \<^verbatim>\<open>len * ignorant_proportion\<close> is
  taken over the reals (the rounding of the float product is not modelled).
\<close>

definition py_round :: "real \<Rightarrow> int" where
  "py_round x =
     (let f = \<lfloor>x\<rfloor>
      in if x - of_int f < 1 / 2 then f
         else if x - of_int f > 1 / 2 then f + 1
         else if even f then f else f + 1)"

definition py_slice_to :: "'a list \<Rightarrow> int \<Rightarrow> 'a list" where
  "py_slice_to xs h = (if 0 \<le> h then take (nat h) xs else take (length xs - nat (- h)) xs)"

definition py_slice_from :: "'a list \<Rightarrow> int \<Rightarrow> 'a list" where
  "py_slice_from xs h = (if 0 \<le> h then drop (nat h) xs else drop (length xs - nat (- h)) xs)"

text \<open>The first half of \<^verbatim>\<open>process_df_users_raw\<close>: the candidate table with its counts.\<close>

definition filtered_df_of :: "int \<times> int \<times> int \<Rightarrow> interaction list \<Rightarrow> counted list" where
  "filtered_df_of thresholds df =
     (let read_only_df = filter (\<lambda>r. is_read r = 1) df;
          tmp_df = groupby_count read_only_df;
          user_ids = map fst (filter (\<lambda>p. snd p \<le> snd (snd thresholds)) tmp_df);
          filtered_df = filter (\<lambda>r. user_id r \<in> set user_ids) df
      in merge_book_count filtered_df tmp_df)"

text \<open>The users each tier is sampled from, in the order of their first row.\<close>

definition low_pool :: "int \<times> int \<times> int \<Rightarrow> counted list \<Rightarrow> int list" where
  "low_pool thresholds filtered_df =
     drop_duplicates (map user_id
       (filter (\<lambda>r. nan_le (book_count r) (fst thresholds)) filtered_df))"

definition mid_pool :: "int \<times> int \<times> int \<Rightarrow> counted list \<Rightarrow> int list" where
  "mid_pool thresholds filtered_df =
     drop_duplicates (map user_id
       (filter (\<lambda>r. nan_le (book_count r) (fst (snd thresholds)) \<and>
                     nan_gt (book_count r) (fst thresholds)) filtered_df))"

definition high_pool :: "int \<times> int \<times> int \<Rightarrow> counted list \<Rightarrow> int list" where
  "high_pool thresholds filtered_df =
     drop_duplicates (map user_id
       (filter (\<lambda>r. nan_gt (book_count r) (fst (snd thresholds))) filtered_df))"

definition tier_pools :: "int \<times> int \<times> int \<Rightarrow> interaction list \<Rightarrow> int list \<times> int list \<times> int list" where
  "tier_pools thresholds df =
     (let filtered_df = filtered_df_of thresholds df
      in (low_pool thresholds filtered_df, mid_pool thresholds filtered_df,
          high_pool thresholds filtered_df))"

text \<open>The three samples, drawn in the order low, mid, high; the first failure stops.\<close>

definition sample_tiers ::
  "rng \<Rightarrow> counted list \<Rightarrow> int \<Rightarrow> int \<Rightarrow> int \<times> int \<times> int \<Rightarrow>
   py_error + (int list \<times> int list \<times> int list)" where
  "sample_tiers choice filtered_df n_users seed thresholds =
     (case divide_into_three n_users of
        (d0, d1, d2) \<Rightarrow>
          (case pd_sample choice seed d0 (low_pool thresholds filtered_df) of
             Inl e \<Rightarrow> Inl e
           | Inr low_user_ids \<Rightarrow>
               (case pd_sample choice seed d1 (mid_pool thresholds filtered_df) of
                  Inl e \<Rightarrow> Inl e
                | Inr mid_user_ids \<Rightarrow>
                    (case pd_sample choice seed d2 (high_pool thresholds filtered_df) of
                       Inl e \<Rightarrow> Inl e
                     | Inr high_user_ids \<Rightarrow> Inr (low_user_ids, mid_user_ids, high_user_ids)))))"

text \<open>The ignorance overlay of one tier table.\<close>

definition naiveness_map :: "rng \<Rightarrow> int \<Rightarrow> real \<Rightarrow> counted list \<Rightarrow> (int, bool) dict" where
  "naiveness_map choice seed ignorant_proportion sub_df =
     (let unique_users = drop_duplicates (map user_id sub_df);
          shuffled_users = pd_shuffle choice seed unique_users;
          half_point = py_round (real (length shuffled_users) * ignorant_proportion);
          trues = foldl (\<lambda>m u. dict_set u True m) [] (py_slice_to shuffled_users half_point)
      in foldl (\<lambda>m u. dict_set u False m) trues (py_slice_from shuffled_users half_point))"

definition set_ignorant :: "bool option \<Rightarrow> counted \<Rightarrow> sampled" where
  "set_ignorant flag r =
     \<lparr>user_id = user_id r, book_id = book_id r, rating = rating r, is_read = is_read r,
      is_reviewed = is_reviewed r, book_count = book_count r, ignorant = flag\<rparr>"

definition add_ignorance :: "rng \<Rightarrow> int \<Rightarrow> real \<Rightarrow> counted list \<Rightarrow> sampled list" where
  "add_ignorance choice seed ignorant_proportion sub_df =
     (if ignorant_proportion \<noteq> 0 then
        (let m = naiveness_map choice seed ignorant_proportion sub_df
         in map (\<lambda>r. set_ignorant (map_of m (user_id r)) r) sub_df)
      else map (set_ignorant (Some False)) sub_df)"

text \<open>
  \<^verbatim>\<open>process_df_users_raw\<close>. \<open>tier_frames\<close> is the function up to its last line (the three
  tier tables \<open>low_df\<close>, \<open>mid_df\<close>, \<open>high_df\<close> with their \<open>ignorant\<close> column), and
  \<open>process_df_users_raw\<close> concatenates them.
\<close>

definition tier_frames ::
  "rng \<Rightarrow> interaction list \<Rightarrow> int \<Rightarrow> int \<Rightarrow> int \<times> int \<times> int \<Rightarrow> real \<Rightarrow>
   py_error + (sampled list \<times> sampled list \<times> sampled list)" where
  "tier_frames choice df n_users seed thresholds ignorant_proportion =
     (let filtered_df = filtered_df_of thresholds df
      in case sample_tiers choice filtered_df n_users seed thresholds of
           Inl e \<Rightarrow> Inl e
         | Inr (low_user_ids, mid_user_ids, high_user_ids) \<Rightarrow>
             (let low_df = filter (\<lambda>r. user_id r \<in> set low_user_ids) filtered_df;
                  mid_df = filter (\<lambda>r. user_id r \<in> set mid_user_ids) filtered_df;
                  high_df = filter (\<lambda>r. user_id r \<in> set high_user_ids) filtered_df
              in Inr (add_ignorance choice seed ignorant_proportion low_df,
                      add_ignorance choice seed ignorant_proportion mid_df,
                      add_ignorance choice seed ignorant_proportion high_df)))"

definition process_df_users_raw ::
  "rng \<Rightarrow> interaction list \<Rightarrow> int \<Rightarrow> int \<Rightarrow> int \<times> int \<times> int \<Rightarrow> real \<Rightarrow>
   py_error + sampled list" where
  "process_df_users_raw choice df n_users seed thresholds ignorant_proportion =
     (case tier_frames choice df n_users seed thresholds ignorant_proportion of
        Inl e \<Rightarrow> Inl e
      | Inr (low_df, mid_df, high_df) \<Rightarrow> Inr (low_df @ mid_df @ high_df))"

text \<open>Two generators for concrete evaluations: the first \<open>n\<close> positions, and the last.\<close>

definition first_positions :: rng where
  "first_positions seed len n = [0..<n]"

definition last_positions :: rng where
  "last_positions seed len n = rev [len - n..<len]"

definition users_of :: "'a interaction_scheme list \<Rightarrow> int set" where
  "users_of rows = user_id ` set rows"

definition flags_of :: "sampled list \<Rightarrow> (int \<times> bool option) set" where
  "flags_of rows = (\<lambda>r. (user_id r, ignorant r)) ` set rows"

definition reads_of :: "interaction list \<Rightarrow> int \<Rightarrow> int" where
  "reads_of df u = int (length (filter (\<lambda>r. user_id r = u) (filter (\<lambda>r. is_read r = 1) df)))"

text \<open>Small interaction tables for the concrete evaluations.\<close>

definition mk_row :: "int \<Rightarrow> int \<Rightarrow> int \<Rightarrow> interaction" where
  "mk_row u b rd = \<lparr>user_id = u, book_id = b, rating = 3, is_read = rd, is_reviewed = 0\<rparr>"

definition two_readers :: "interaction list" where
  "two_readers = [mk_row 1 10 1, mk_row 2 10 1]"

definition two_readers_more_rows :: "interaction list" where
  "two_readers_more_rows = [mk_row 1 11 1, mk_row 1 12 0, mk_row 2 13 1, mk_row 2 10 0]"

definition four_readers :: "interaction list" where
  "four_readers =
     [mk_row 1 10 1,
      mk_row 2 10 1, mk_row 2 11 1,
      mk_row 3 10 1, mk_row 3 11 1, mk_row 3 12 1,
      mk_row 4 10 1, mk_row 4 11 1, mk_row 4 12 1, mk_row 4 13 1,
      mk_row 5 10 0]"

section \<open>data_preparation.py: similarity and book scores\<close>

text \<open>
  numpy floats, as far as the similarity computation needs them: a finite value (a real
  number; the rounding of float arithmetic is not modelled), the two infinities, and
  NaN. numpy divides by zero without raising: \<open>0 / 0\<close> is NaN and \<open>x / 0\<close> is an
  infinity with the sign of \<open>x\<close> (the divisor is a norm, never negative). NaN and the
  infinities propagate through products and sums as IEEE 754 says, and every
  comparison with NaN is false.
\<close>

datatype npfloat = Fin real | PInf | NInf | NaN

definition np_div :: "real \<Rightarrow> real \<Rightarrow> npfloat" where
  "np_div x y =
     (if y \<noteq> 0 then Fin (x / y)
      else if x = 0 then NaN
      else if 0 < x then PInf else NInf)"

fun np_mul :: "npfloat \<Rightarrow> npfloat \<Rightarrow> npfloat" where
  "np_mul NaN y = NaN"
| "np_mul x NaN = NaN"
| "np_mul (Fin a) (Fin b) = Fin (a * b)"
| "np_mul (Fin a) PInf = (if a = 0 then NaN else if 0 < a then PInf else NInf)"
| "np_mul (Fin a) NInf = (if a = 0 then NaN else if 0 < a then NInf else PInf)"
| "np_mul PInf (Fin b) = (if b = 0 then NaN else if 0 < b then PInf else NInf)"
| "np_mul NInf (Fin b) = (if b = 0 then NaN else if 0 < b then NInf else PInf)"
| "np_mul PInf PInf = PInf"
| "np_mul PInf NInf = NInf"
| "np_mul NInf PInf = NInf"
| "np_mul NInf NInf = PInf"

fun np_add :: "npfloat \<Rightarrow> npfloat \<Rightarrow> npfloat" where
  "np_add NaN y = NaN"
| "np_add x NaN = NaN"
| "np_add (Fin a) (Fin b) = Fin (a + b)"
| "np_add (Fin a) PInf = PInf"
| "np_add (Fin a) NInf = NInf"
| "np_add PInf (Fin b) = PInf"
| "np_add NInf (Fin b) = NInf"
| "np_add PInf PInf = PInf"
| "np_add NInf NInf = NInf"
| "np_add PInf NInf = NaN"
| "np_add NInf PInf = NaN"

fun np_lt :: "npfloat \<Rightarrow> npfloat \<Rightarrow> bool" where
  "np_lt NaN y = False"
| "np_lt x NaN = False"
| "np_lt (Fin a) (Fin b) = (a < b)"
| "np_lt (Fin a) PInf = True"
| "np_lt (Fin a) NInf = False"
| "np_lt PInf y = False"
| "np_lt NInf (Fin b) = True"
| "np_lt NInf PInf = True"
| "np_lt NInf NInf = False"

fun is_nan :: "npfloat \<Rightarrow> bool" where
  "is_nan NaN = True"
| "is_nan x = False"

text \<open>\<^verbatim>\<open>np.linalg.norm\<close> of a row and the product of two rows inside \<^verbatim>\<open>np.dot\<close>.\<close>

definition np_norm :: "real list \<Rightarrow> real" where
  "np_norm v = sqrt (sum_list (map (\<lambda>x. x * x) v))"

definition np_dot :: "npfloat list \<Rightarrow> npfloat list \<Rightarrow> npfloat" where
  "np_dot a b = foldl np_add (Fin 0) (map (\<lambda>(x, y). np_mul x y) (zip a b))"

text \<open>Running a function that can raise over a list: the first exception stops.\<close>

fun collect :: "('a \<Rightarrow> py_error + 'b) \<Rightarrow> 'a list \<Rightarrow> py_error + 'b list" where
  "collect f [] = Inr []"
| "collect f (x # xs) =
     (case f x of
        Inl e \<Rightarrow> Inl e
      | Inr y \<Rightarrow> (case collect f xs of Inl e \<Rightarrow> Inl e | Inr ys \<Rightarrow> Inr (y # ys)))"

text \<open>\<^verbatim>\<open>x.reshape(16)\<close> raises ValueError unless the array has 16 entries.\<close>

definition reshape16 :: "real list \<Rightarrow> py_error + real list" where
  "reshape16 v = (if length v = 16 then Inr v else Inl ValueError)"

text \<open>\<^verbatim>\<open>np.stack\<close> raises ValueError on an empty sequence of arrays.\<close>

definition np_stack :: "'a list \<Rightarrow> py_error + 'a list" where
  "np_stack rows = (if rows = [] then Inl ValueError else Inr rows)"

text \<open>
  \<^verbatim>\<open>sorted(items, key=lambda item: item[1], reverse=True)\<close>: a stable sort by
  decreasing value. CPython reverses the list, sorts it stably in increasing order with
  \<open><\<close> alone, and reverses the result; the increasing sort is an insertion sort here,
  which is what any stable sort computes when no key is NaN.
\<close>

fun insert_by_value :: "'k \<times> npfloat \<Rightarrow> ('k \<times> npfloat) list \<Rightarrow> ('k \<times> npfloat) list" where
  "insert_by_value x [] = [x]"
| "insert_by_value x (y # ys) =
     (if np_lt (snd x) (snd y) then x # y # ys else y # insert_by_value x ys)"

definition sorted_by_value_reverse :: "('k \<times> npfloat) list \<Rightarrow> ('k \<times> npfloat) list" where
  "sorted_by_value_reverse items = rev (foldl (\<lambda>acc x. insert_by_value x acc) [] (rev items))"

definition to_dict :: "('k \<times> 'v) list \<Rightarrow> ('k, 'v) dict" where
  "to_dict items = foldl (\<lambda>d item. dict_set (fst item) (snd item) d) [] items"

text \<open>
  \<^verbatim>\<open>matrix_cosine_similarity(df_reference, df_compare, n)\<close>. Of \<open>df_reference\<close> the
  function reads the column \<open>vector\<close>, of \<open>df_compare\<close> the index and the column
  \<open>vector\<close>; it returns \<open>df_reference\<close> with the new column \<open>similarities\<close>, which is
  the result here: one dict per reference row.
\<close>

definition normalize_rows :: "real list list \<Rightarrow> npfloat list list" where
  "normalize_rows matrix = map (\<lambda>row. map (\<lambda>x. np_div x (np_norm row)) row) matrix"

definition matrix_cosine_similarity ::
  "real list list \<Rightarrow> (int \<times> real list) list \<Rightarrow> int \<Rightarrow> py_error + (int, npfloat) dict list" where
  "matrix_cosine_similarity df_reference df_compare n =
     (case collect reshape16 df_reference of
        Inl e \<Rightarrow> Inl e
      | Inr tmp_reference \<Rightarrow>
          (case collect reshape16 (map snd df_compare) of
             Inl e \<Rightarrow> Inl e
           | Inr tmp_compare \<Rightarrow>
               (case np_stack tmp_reference of
                  Inl e \<Rightarrow> Inl e
                | Inr matrix_reference \<Rightarrow>
                    (case np_stack tmp_compare of
                       Inl e \<Rightarrow> Inl e
                     | Inr matrix_compare \<Rightarrow>
                         (let matrix_reference_normalized = normalize_rows matrix_reference;
                              matrix_compare_normalized = normalize_rows matrix_compare;
                              similarities =
                                map (\<lambda>r. map (\<lambda>c. np_dot r c) matrix_compare_normalized)
                                  matrix_reference_normalized
                          in Inr (map (\<lambda>sims.
                                   to_dict (py_slice_to
                                     (sorted_by_value_reverse
                                        (to_dict (zip (map fst df_compare) sims))) n))
                                 similarities))))))"

text \<open>
  \<^verbatim>\<open>sklearn.metrics.pairwise.cosine_similarity\<close> of two arrays of one row each, the
  single entry of its result. sklearn raises ValueError when the rows differ in length
  or have no entry; it normalises each row by its norm, a zero norm replaced by 1, and
  multiplies.
\<close>

definition sk_normalize :: "real list \<Rightarrow> real list" where
  "sk_normalize v = (let nrm = np_norm v in map (\<lambda>x. x / (if nrm = 0 then 1 else nrm)) v)"

definition cosine_similarity :: "real list \<Rightarrow> real list \<Rightarrow> py_error + real" where
  "cosine_similarity u v =
     (if length u \<noteq> length v \<or> u = [] then Inl ValueError
      else Inr (sum_list (map (\<lambda>(x, y). x * y) (zip (sk_normalize u) (sk_normalize v)))))"

text \<open>
  A row of the items table: the index \<open>item_id\<close> (the book), the aggregates, the genre
  vector and the priority, which is \<open>None\<close> when \<open>calculate_priority\<close> returned \<open>None\<close>.
\<close>

record item =
  item_id :: int
  item_is_read :: int
  item_rating :: real
  item_is_reviewed :: int
  item_vector :: "real list"
  item_priority :: "real option"

text \<open>
  \<^verbatim>\<open>df_items[df_items.index == book_id]\<close> followed by \<^verbatim>\<open>.item()\<close> on a column: ValueError
  unless exactly one row has the index.
\<close>

definition select_item :: "item list \<Rightarrow> int \<Rightarrow> py_error + item" where
  "select_item df_items b =
     (case filter (\<lambda>it. item_id it = b) df_items of
        [it] \<Rightarrow> Inr it
      | _ \<Rightarrow> Inl ValueError)"

text \<open>
  \<^verbatim>\<open>calculate_book_score(row, df_items)\<close>, with \<open>user_vector\<close> and \<open>book_ids\<close> the row's
  \<open>vector\<close> and \<open>book_id\<close> list. \<open>score_books\<close> is the loop, \<open>books\<close> its dict.
  Comparing a \<open>None\<close> priority with 0 raises TypeError.
\<close>

fun score_books ::
  "real list \<Rightarrow> item list \<Rightarrow> (int, real) dict \<Rightarrow> int list \<Rightarrow> py_error + (int, real) dict" where
  "score_books user_vector df_items books [] = Inr books"
| "score_books user_vector df_items books (b # rest) =
     (case select_item df_items b of
        Inl e \<Rightarrow> Inl e
      | Inr it \<Rightarrow>
          (case item_priority it of
             None \<Rightarrow> Inl TypeError
           | Some pr \<Rightarrow>
               if pr > 0 then score_books user_vector df_items (dict_set b pr books) rest
               else (case cosine_similarity user_vector (item_vector it) of
                       Inl e \<Rightarrow> Inl e
                     | Inr similarity \<Rightarrow>
                         score_books user_vector df_items (dict_set b similarity books) rest)))"


text \<open>Vectors for the concrete evaluations: all zeros, and the first unit vector.\<close>

definition zero_vector :: "real list" where
  "zero_vector = [0, 0, 0, 0, 0, 0, 0, 0, 0, 0, 0, 0, 0, 0, 0, 0]"

definition unit_vector :: "real list" where
  "unit_vector = [1, 0, 0, 0, 0, 0, 0, 0, 0, 0, 0, 0, 0, 0, 0, 0]"


section \<open>data_preparation.py: the users table\<close>


record user_agg =
  u_user_id :: int
  u_is_reviewed :: int
  u_is_read :: int
  u_rating :: real
  u_book_id :: "(int, real) dict"
  u_ignorant :: "bool option"
  u_vector :: "real list"

record user_row = user_agg +
  read_proba :: real
  similarities :: "(int, npfloat) dict option"










section \<open>Dictionaries\<close>


lemma set_dict_set: "set (dict_set k v d) \<subseteq> insert (k, v) (set d)"
  by (induction d) auto

section \<open>divide\_into\_three\<close>

text \<open>
  C3, as stated: for every integer N the three components are non-negative. This fails
  at N = -1, where Python computes part = -1 and remainder = 2, hence (0, 0, -1).
\<close>

theorem divide_into_three_negative_counterexample:
  "divide_into_three (- 1) = (0, 0, - 1) \<and>
   \<not> (0 \<le> snd (snd (divide_into_three (- 1))))"
  by (simp add: divide_into_three_def)

text \<open>
  C3, amended: for every integer N the three components sum to N, the remainder goes
  to the lower tiers first (remainder 1: the first component gets the extra, remainder
  2: the first two), the first component is at least the third and exceeds it by at
  most 1; the components are non-negative when N is non-negative.
\<close>

theorem divide_into_three_split:
  "(case divide_into_three n of (a, b, c) \<Rightarrow>
      a + b + c = n \<and> c = n div 3 \<and>
      (n mod 3 = 0 \<longrightarrow> a = c \<and> b = c) \<and>
      (n mod 3 = 1 \<longrightarrow> a = c + 1 \<and> b = c) \<and>
      (n mod 3 = 2 \<longrightarrow> a = c + 1 \<and> b = c + 1) \<and>
      c \<le> a \<and> a \<le> c + 1 \<and>
      (0 \<le> n \<longrightarrow> 0 \<le> a \<and> 0 \<le> b \<and> 0 \<le> c))"
proof -
  have r: "n mod 3 = 0 \<or> n mod 3 = 1 \<or> n mod 3 = 2"
    by presburger
  have s0: "n mod 3 = 0 \<Longrightarrow> 3 * (n div 3) = n"
    by presburger
  have s1: "n mod 3 = 1 \<Longrightarrow> 3 * (n div 3) + 1 = n"
    by presburger
  have s2: "n mod 3 = 2 \<Longrightarrow> 3 * (n div 3) + 2 = n"
    by presburger
  have p: "0 \<le> n \<Longrightarrow> 0 \<le> n div 3"
    by simp
  from r s0 s1 s2 p show ?thesis
    unfolding divide_into_three_def Let_def by auto
qed

theorem divide_into_three_split_witness:
  "divide_into_three 7 = (3, 2, 2) \<and> (3::int) + 2 + 2 = 7 \<and> (7::int) mod 3 = 1 \<and> (0::int) \<le> 7"
  using divide_into_three_split [of 7] by (simp add: divide_into_three_def)

section \<open>reformat\_dict\<close>

lemma dict_get_nonneg: "\<forall>p \<in> set d. 0 \<le> snd p \<Longrightarrow> 0 \<le> dict_get d k (0::int)"
proof (cases "map_of d k")
  case None
  then show ?thesis by (simp add: dict_get_def)
next
  case (Some v)
  assume a: "\<forall>p \<in> set d. 0 \<le> snd p"
  from Some have "(k, v) \<in> set d" by (rule map_of_SomeD)
  with a have "0 \<le> v" by fastforce
  with Some show ?thesis by (simp add: dict_get_def)
qed

lemma dict_set_nonneg:
  "\<forall>p \<in> set d. 0 \<le> snd p \<Longrightarrow> (0::int) \<le> v \<Longrightarrow> \<forall>p \<in> set (dict_set k v d). 0 \<le> snd p"
  using set_dict_set [of k v d] by auto

lemma add_genre_nonneg:
  "\<forall>p \<in> set genres. 0 \<le> snd p \<Longrightarrow> \<forall>p \<in> set (add_genre val genres g). 0 \<le> snd p"
  unfolding add_genre_def Let_def
  by (rule dict_set_nonneg) (auto dest: dict_get_nonneg [where k = "clean_genre g"])

lemma foldl_add_genre_nonneg:
  "\<forall>p \<in> set genres. 0 \<le> snd p \<Longrightarrow> \<forall>p \<in> set (foldl (add_genre val) genres gs). 0 \<le> snd p"
proof (induction gs arbitrary: genres)
  case Nil
  then show ?case by simp
next
  case (Cons g gs)
  from Cons.prems have "\<forall>p \<in> set (add_genre val genres g). 0 \<le> snd p"
    by (rule add_genre_nonneg)
  then have "\<forall>p \<in> set (foldl (add_genre val) (add_genre val genres g) gs). 0 \<le> snd p"
    by (rule Cons.IH)
  then show ?case by simp
qed

lemma add_entry_nonneg:
  "\<forall>p \<in> set genres. 0 \<le> snd p \<Longrightarrow> \<forall>p \<in> set (add_entry genres e). 0 \<le> snd p"
  unfolding add_entry_def by (rule foldl_add_genre_nonneg)

lemma foldl_add_entry_nonneg:
  "\<forall>p \<in> set genres. 0 \<le> snd p \<Longrightarrow> \<forall>p \<in> set (foldl add_entry genres d). 0 \<le> snd p"
proof (induction d arbitrary: genres)
  case Nil
  then show ?case by simp
next
  case (Cons e d)
  from Cons.prems have "\<forall>p \<in> set (add_entry genres e). 0 \<le> snd p"
    by (rule add_entry_nonneg)
  then have "\<forall>p \<in> set (foldl add_entry (add_entry genres e) d). 0 \<le> snd p"
    by (rule Cons.IH)
  then show ?case by simp
qed

lemma foldl_fill_nonneg:
  "\<forall>p \<in> set genres. 0 \<le> snd p \<Longrightarrow>
   \<forall>p \<in> set (foldl (\<lambda>acc k. dict_set k 0 acc) genres ks). (0::int) \<le> snd p"
proof (induction ks arbitrary: genres)
  case Nil
  then show ?case by simp
next
  case (Cons k ks)
  from Cons.prems have "\<forall>p \<in> set (dict_set k 0 genres). 0 \<le> snd p"
    by (rule dict_set_nonneg) simp
  then have "\<forall>p \<in> set (foldl (\<lambda>acc k. dict_set k 0 acc) (dict_set k 0 genres) ks). 0 \<le> snd p"
    by (rule Cons.IH)
  then show ?case by simp
qed

text \<open>
  C10: every value of the mapping \<open>reformat_dict\<close> returns is non-negative, for every
  input mapping and every category list. A bucket is only ever set to 0 or to its
  previous value plus a positive count.
\<close>

theorem reformat_dict_nonneg: "(k, v) \<in> set (reformat_dict categories d) \<Longrightarrow> 0 \<le> v"
proof -
  have "\<forall>p \<in> set (foldl add_entry [] d). 0 \<le> snd p"
    by (rule foldl_add_entry_nonneg) simp
  then have "\<forall>p \<in> set (reformat_dict categories d). 0 \<le> snd p"
    unfolding reformat_dict_def Let_def by (rule foldl_fill_nonneg)
  then show "(k, v) \<in> set (reformat_dict categories d) \<Longrightarrow> 0 \<le> v"
    by auto
qed

theorem reformat_dict_nonneg_witness:
  "(''paranormal'', 5) \<in> set (reformat_dict [''fantasy'', ''poetry'']
      [(''fantasy, paranormal'', 5), (''fantasy'', - 1)]) \<and> (0::int) \<le> 5"
proof -
  have h: "(''paranormal'', 5) \<in> set (reformat_dict [''fantasy'', ''poetry'']
      [(''fantasy, paranormal'', 5), (''fantasy'', - 1)])"
    by code_simp
  from h reformat_dict_nonneg [OF h] show ?thesis by simp
qed

text \<open>
  C1: a bucket derived from a label with a negative count is 0 in the output, whatever
  else contributes to the bucket and in whatever order. The code resets the bucket when
  it meets the negative count and goes on adding the positive counts that come after
  it: with the entry \<open>fantasy: -1\<close> before \<open>fantasy, paranormal: 5\<close> the bucket
  \<open>fantasy\<close> ends at 5, with the two entries the other way round it ends at 0.
\<close>

theorem reformat_dict_negative_then_positive:
  "map_of (reformat_dict example_categories
      [(''fantasy'', - 1), (''fantasy, paranormal'', 5)]) ''fantasy'' = Some 5 \<and>
   map_of (reformat_dict example_categories
      [(''fantasy, paranormal'', 5), (''fantasy'', - 1)]) ''fantasy'' = Some 0"
  by code_simp

section \<open>calculate\_priority\<close>

lemma index_of_first:
  "i < length xs \<Longrightarrow> xs ! i = x \<Longrightarrow> \<forall>j<i. xs ! j \<noteq> x \<Longrightarrow> index_of xs x = Inr i"
proof (induction xs arbitrary: i)
  case Nil
  then show ?case by simp
next
  case (Cons y ys)
  show ?case
  proof (cases i)
    case 0
    with Cons.prems show ?thesis by simp
  next
    case (Suc k)
    from Cons.prems Suc have "y \<noteq> x" by auto
    moreover have "index_of ys x = Inr k"
    proof (rule Cons.IH)
      from Cons.prems Suc show "k < length ys" by simp
      from Cons.prems Suc show "ys ! k = x" by simp
      from Cons.prems Suc show "\<forall>j<k. ys ! j \<noteq> x" by auto
    qed
    ultimately show ?thesis using Suc by simp
  qed
qed

lemma foldl_max_Max: "foldl max x xs = Max (set (x # xs))"
proof (induction xs arbitrary: x)
  case Nil
  then show ?case by simp
next
  case (Cons y ys)
  have "foldl max x (y # ys) = Max (set (max x y # ys))"
    using Cons.IH by simp
  also have "\<dots> = Max (set (x # y # ys))"
    by (simp add: Max.insert_not_elem max.assoc) (metis List.finite_set Max_insert max.assoc max.commute Max_singleton empty_iff)
  finally show ?case .
qed

lemma np_max_Max: "vector \<noteq> [] \<Longrightarrow> np_max vector = Inr (Max (set vector))"
  by (cases vector) (simp_all add: foldl_max_Max del: foldl.simps)

text \<open>
  C6: with a category name as strategy, the priority is 1 exactly when that category's
  axis (its first position \<open>i\<close> in the category list) holds the maximum of the item's
  vector and the vector is not all zero, and 0 otherwise; an all-zero vector gives 0.
  The vector has one entry per category, as \<open>get_items_df\<close> builds it, and category
  names are not empty (an empty string is a falsy strategy).
\<close>

theorem calculate_priority_category:
  assumes "i < length categories" and "categories ! i = c" and "\<forall>j<i. categories ! j \<noteq> c"
    and "c \<noteq> []" and "length vector = length categories"
  shows "calculate_priority categories rnd vector (PyStr c) =
           Inr (Some (if vector ! i = Max (set vector) \<and> (\<exists>x \<in> set vector. x \<noteq> 0) then 1 else 0)) \<and>
         ((\<forall>x \<in> set vector. x = 0) \<longrightarrow>
            calculate_priority categories rnd vector (PyStr c) = Inr (Some 0))"
proof -
  from assms have mem: "c \<in> set categories"
    by (metis nth_mem)
  from assms have idx: "index_of categories c = Inr i"
    by (simp add: index_of_first)
  from assms have ne: "vector \<noteq> []"
    by auto
  then have mx: "np_max vector = Inr (Max (set vector))"
    by (rule np_max_Max)
  from assms have iv: "i < length vector"
    by simp
  have az: "list_all (\<lambda>x. x = 0) vector \<longleftrightarrow> \<not> (\<exists>x \<in> set vector. x \<noteq> 0)"
    by (simp add: list_all_iff)
  from mem idx mx iv az assms(4) show ?thesis
    by (simp add: calculate_priority_def Let_def)
qed

theorem calculate_priority_category_witness:
  "calculate_priority example_categories 0 [5, 0, 0, 0, 0, 0, 0, 0, 0, 0, 0, 0, 0, 0, 0, 0] (PyStr ''children'')
     = Inr (Some 1) \<and>
   calculate_priority example_categories 0 [0, 0, 0, 0, 0, 0, 0, 0, 0, 0, 0, 0, 0, 0, 0, 0] (PyStr ''children'')
     = Inr (Some 0)"
proof -
  have a: "0 < length example_categories" "example_categories ! 0 = ''children''"
    "\<forall>j<0. example_categories ! j \<noteq> ''children''" "''children'' \<noteq> []"
    by (simp_all add: example_categories_def)
  have l1: "length [5, 0, 0, 0, 0, 0, 0, 0, 0, 0, 0, 0, 0, 0, 0, 0 :: real] = length example_categories"
    by (simp add: example_categories_def)
  have l2: "length [0, 0, 0, 0, 0, 0, 0, 0, 0, 0, 0, 0, 0, 0, 0, 0 :: real] = length example_categories"
    by (simp add: example_categories_def)
  from calculate_priority_category [OF a l1, of 0] calculate_priority_category [OF a l2, of 0]
  show ?thesis by simp
qed

text \<open>
  C5: a strategy value that is truthy, not a float and not a category name makes
  \<open>calculate_priority\<close> signal an invalid-configuration error. The code has no branch
  for such a value: it falls off the end of the function and returns \<open>None\<close>, no
  exception raised.
\<close>

theorem calculate_priority_unknown_strategy:
  "truthy priority \<Longrightarrow> \<not> is_float priority \<Longrightarrow> \<not> py_in priority categories \<Longrightarrow>
   calculate_priority categories rnd vector priority = Inr None"
  by (simp add: calculate_priority_def)

theorem calculate_priority_unknown_strategy_witness:
  "truthy (PyStr ''science_fiction'') \<and> \<not> is_float (PyStr ''science_fiction'') \<and>
   \<not> py_in (PyStr ''science_fiction'') example_categories \<and>
   calculate_priority example_categories 0 [5, 0, 0, 0, 0, 0, 0, 0, 0, 0, 0, 0, 0, 0, 0, 0]
     (PyStr ''science_fiction'') = Inr None"
proof -
  have a: "truthy (PyStr ''science_fiction'')" "\<not> is_float (PyStr ''science_fiction'')"
    "\<not> py_in (PyStr ''science_fiction'') example_categories"
    by (simp_all add: example_categories_def)
  from a calculate_priority_unknown_strategy [OF a] show ?thesis by simp
qed

section \<open>The user sampler\<close>

subsection \<open>drop\_duplicates and the pandas helpers\<close>

lemma set_drop_duplicates: "set (drop_duplicates xs) = set xs"
  by (induction xs) auto

lemma distinct_drop_duplicates: "distinct (drop_duplicates xs)"
  by (induction xs) auto

lemma drop_duplicates_filter: "drop_duplicates (filter P xs) = filter P (drop_duplicates xs)"
proof (induction xs)
  case Nil
  then show ?case by simp
next
  case (Cons x xs)
  show ?case
  proof (cases "P x")
    case True
    have "filter (\<lambda>y. y \<noteq> x) (filter P (drop_duplicates xs)) =
          filter P (filter (\<lambda>y. y \<noteq> x) (drop_duplicates xs))"
      by (simp add: conj_commute)
    with True Cons.IH show ?thesis by simp
  next
    case False
    have "filter P (filter (\<lambda>y. y \<noteq> x) (drop_duplicates xs)) = filter P (drop_duplicates xs)"
      using False by (auto intro: filter_cong)
    with False Cons.IH show ?thesis by simp
  qed
qed

lemma map_of_tabulate:
  "map_of (map (\<lambda>u. (u, f u)) us) u = (if u \<in> set us then Some (f u) else None)"
  by (induction us) auto

lemma map_of_groupby_count:
  "map_of (groupby_count rows) u =
     (if u \<in> user_id ` set rows then Some (int (length (filter (\<lambda>r. user_id r = u) rows))) else None)"
  unfolding groupby_count_def by (simp add: map_of_tabulate)

lemma set_groupby_count:
  "(u, c) \<in> set (groupby_count rows) \<Longrightarrow>
   u \<in> user_id ` set rows \<and> c = int (length (filter (\<lambda>r. user_id r = u) rows))"
  unfolding groupby_count_def by auto

lemma take_positions_props:
  assumes "distinct xs" and "distinct ps" and "\<forall>i \<in> set ps. i < length xs"
  shows "distinct (take_positions xs ps) \<and> set (take_positions xs ps) \<subseteq> set xs \<and>
         length (take_positions xs ps) = length ps"
proof -
  have "inj_on (\<lambda>i. xs ! i) (set ps)"
    using assms by (auto simp: inj_on_def nth_eq_iff_index_eq)
  with assms(2) have "distinct (take_positions xs ps)"
    by (simp add: take_positions_def distinct_map)
  moreover have "set (take_positions xs ps) \<subseteq> set xs"
    using assms(3) by (auto simp: take_positions_def)
  ultimately show ?thesis
    by (simp add: take_positions_def)
qed

lemma pd_sample_Inr:
  assumes "choice_ok choice" and "distinct xs" and "pd_sample choice seed n xs = Inr s"
  shows "distinct s \<and> set s \<subseteq> set xs \<and> int (length s) = n \<and> n \<le> int (length xs)"
proof -
  from assms(3) have n: "0 \<le> n" "n \<le> int (length xs)"
    and s: "s = take_positions xs (choice seed (length xs) (nat n))"
    by (auto simp: pd_sample_def split: if_splits)
  from n have le: "nat n \<le> length xs" by simp
  from assms(1) le have c: "length (choice seed (length xs) (nat n)) = nat n"
    "distinct (choice seed (length xs) (nat n))"
    "\<forall>i \<in> set (choice seed (length xs) (nat n)). i < length xs"
    unfolding choice_ok_def by blast+
  from take_positions_props [OF assms(2) c(2) c(3)] s c(1) n show ?thesis
    by simp
qed

lemma pd_sample_Inl:
  "pd_sample choice seed n xs = Inl e \<longleftrightarrow> e = ValueError \<and> (n < 0 \<or> int (length xs) < n)"
  by (auto simp: pd_sample_def)

lemma pd_shuffle_set:
  assumes "choice_ok choice"
  shows "set (pd_shuffle choice seed xs) \<subseteq> set xs"
proof -
  from assms have "\<forall>i \<in> set (choice seed (length xs) (length xs)). i < length xs"
    unfolding choice_ok_def by blast
  then show ?thesis
    by (auto simp: pd_shuffle_def take_positions_def)
qed

lemma divide_into_three_sum: "divide_into_three n = (a, b, c) \<Longrightarrow> a + b + c = n"
proof -
  assume d: "divide_into_three n = (a, b, c)"
  have s0: "n mod 3 = 0 \<Longrightarrow> 3 * (n div 3) = n"
    by presburger
  have s1: "n mod 3 = 1 \<Longrightarrow> 3 * (n div 3) + 1 = n"
    by presburger
  have s2: "n mod 3 \<noteq> 0 \<Longrightarrow> n mod 3 \<noteq> 1 \<Longrightarrow> 3 * (n div 3) + 2 = n"
    by presburger
  from d s0 s1 s2 show ?thesis
    unfolding divide_into_three_def Let_def by (auto split: if_splits)
qed

subsection \<open>The candidate table\<close>

lemma filtered_df_row:
  assumes "r \<in> set (filtered_df_of th df)"
  shows "book_count r = Some (reads_of df (user_id r)) \<and> reads_of df (user_id r) \<le> snd (snd th)"
proof -
  define ro where "ro = filter (\<lambda>r. is_read r = 1) df"
  define tmp where "tmp = groupby_count ro"
  define uids where "uids = map fst (filter (\<lambda>p. snd p \<le> snd (snd th)) tmp)"
  from assms have "r \<in> set (merge_book_count (filter (\<lambda>r. user_id r \<in> set uids) df) tmp)"
    unfolding filtered_df_of_def Let_def ro_def tmp_def uids_def .
  then obtain r0 where r0: "r0 \<in> set df" "user_id r0 \<in> set uids"
    and req: "r = \<lparr>user_id = user_id r0, book_id = book_id r0, rating = rating r0,
               is_read = is_read r0, is_reviewed = is_reviewed r0,
               book_count = map_of tmp (user_id r0)\<rparr>"
    unfolding merge_book_count_def by auto
  from req have r: "user_id r = user_id r0" "book_count r = map_of tmp (user_id r0)"
    by simp_all
  from r0(2) obtain c where c: "(user_id r0, c) \<in> set tmp" "c \<le> snd (snd th)"
    unfolding uids_def by auto
  from c(1) have u: "user_id r0 \<in> user_id ` set ro"
    and cv: "c = int (length (filter (\<lambda>x. user_id x = user_id r0) ro))"
    unfolding tmp_def by (auto dest: set_groupby_count)
  from u have "map_of tmp (user_id r0) = Some c"
    unfolding tmp_def cv by (simp only: map_of_groupby_count if_True)
  moreover have "c = reads_of df (user_id r0)"
    unfolding cv reads_of_def ro_def ..
  ultimately show ?thesis using r c(2) by simp
qed

lemma low_pool_mem:
  "u \<in> set (low_pool th (filtered_df_of th df)) \<Longrightarrow> reads_of df u \<le> fst th"
  unfolding low_pool_def by (auto simp: set_drop_duplicates nan_le_def dest: filtered_df_row)

lemma mid_pool_mem:
  "u \<in> set (mid_pool th (filtered_df_of th df)) \<Longrightarrow>
   fst th < reads_of df u \<and> reads_of df u \<le> fst (snd th)"
  unfolding mid_pool_def
  by (auto simp: set_drop_duplicates nan_le_def nan_gt_def dest: filtered_df_row)

lemma high_pool_mem:
  "u \<in> set (high_pool th (filtered_df_of th df)) \<Longrightarrow>
   fst (snd th) < reads_of df u \<and> reads_of df u \<le> snd (snd th)"
  unfolding high_pool_def
  by (auto simp: set_drop_duplicates nan_gt_def dest: filtered_df_row)

lemma pool_users:
  "set (low_pool th fdf) \<subseteq> user_id ` set fdf"
  "set (mid_pool th fdf) \<subseteq> user_id ` set fdf"
  "set (high_pool th fdf) \<subseteq> user_id ` set fdf"
  unfolding low_pool_def mid_pool_def high_pool_def by (auto simp: set_drop_duplicates)

subsection \<open>The three samples\<close>

lemma divide_into_three_negative:
  "divide_into_three n = (a, b, c) \<Longrightarrow> (a < 0 \<or> b < 0 \<or> c < 0) = (n < 0)"
proof -
  assume d: "divide_into_three n = (a, b, c)"
  have p: "(n div 3 < 0) = (n < 0)"
    by presburger
  have q: "n div 3 + 1 < 0 \<Longrightarrow> n < 0"
    by presburger
  from d p q show ?thesis
    unfolding divide_into_three_def Let_def by (auto split: if_splits)
qed

lemma sample_tiers_Inr:
  assumes ok: "choice_ok choice"
    and s: "sample_tiers choice fdf n seed th = Inr (low, mid, high)"
  shows "distinct low \<and> distinct mid \<and> distinct high \<and>
         set low \<subseteq> set (low_pool th fdf) \<and> set mid \<subseteq> set (mid_pool th fdf) \<and>
         set high \<subseteq> set (high_pool th fdf) \<and>
         int (length low) + int (length mid) + int (length high) = n"
proof -
  obtain d0 d1 d2 where d: "divide_into_three n = (d0, d1, d2)"
    by (cases "divide_into_three n") auto
  from s d have l: "pd_sample choice seed d0 (low_pool th fdf) = Inr low"
    and m: "pd_sample choice seed d1 (mid_pool th fdf) = Inr mid"
    and h: "pd_sample choice seed d2 (high_pool th fdf) = Inr high"
    unfolding sample_tiers_def by (auto split: sum.splits)
  have dl: "distinct (low_pool th fdf)" and dm: "distinct (mid_pool th fdf)"
    and dh: "distinct (high_pool th fdf)"
    unfolding low_pool_def mid_pool_def high_pool_def by (rule distinct_drop_duplicates)+
  from pd_sample_Inr [OF ok dl l] pd_sample_Inr [OF ok dm m] pd_sample_Inr [OF ok dh h]
    divide_into_three_sum [OF d]
  show ?thesis by simp
qed

lemma sample_tiers_Inl:
  assumes d: "divide_into_three n = (d0, d1, d2)"
  shows "(sample_tiers choice fdf n seed th = Inl e) =
         (e = ValueError \<and>
          (n < 0 \<or> int (length (low_pool th fdf)) < d0 \<or> int (length (mid_pool th fdf)) < d1 \<or>
           int (length (high_pool th fdf)) < d2))"
proof -
  have neg: "(d0 < 0 \<or> d1 < 0 \<or> d2 < 0) = (n < 0)"
    using d by (rule divide_into_three_negative)
  have alt: "\<And>k xs. pd_sample choice seed k xs =
      (if k < 0 \<or> int (length xs) < k then Inl ValueError
       else Inr (take_positions xs (choice seed (length xs) (nat k))))"
    by (simp add: pd_sample_def)
  have "(sample_tiers choice fdf n seed th = Inl e) =
        (e = ValueError \<and>
          ((d0 < 0 \<or> d1 < 0 \<or> d2 < 0) \<or> int (length (low_pool th fdf)) < d0 \<or>
           int (length (mid_pool th fdf)) < d1 \<or> int (length (high_pool th fdf)) < d2))"
    unfolding sample_tiers_def d alt by auto
  then show ?thesis
    unfolding neg .
qed

subsection \<open>The tier tables\<close>

lemma set_ignorant_fields [simp]:
  "user_id (set_ignorant f r) = user_id r"
  "book_count (set_ignorant f r) = book_count r"
  "ignorant (set_ignorant f r) = f"
  by (simp_all add: set_ignorant_def)

lemma add_ignorance_rows:
  "r \<in> set (add_ignorance choice seed p sub) \<Longrightarrow>
   \<exists>r0 \<in> set sub. user_id r = user_id r0 \<and> book_count r = book_count r0"
  unfolding add_ignorance_def Let_def by (auto split: if_splits)

lemma users_of_add_ignorance: "users_of (add_ignorance choice seed p sub) = users_of sub"
  unfolding users_of_def add_ignorance_def Let_def by (auto simp: image_iff split: if_splits)

lemma users_of_selection:
  "set s \<subseteq> user_id ` set fdf \<Longrightarrow> users_of (filter (\<lambda>r. user_id r \<in> set s) fdf) = set s"
  unfolding users_of_def by auto

lemma users_of_append: "users_of (xs @ ys) = users_of xs \<union> users_of ys"
  unfolding users_of_def by auto

lemma tier_frames_Inr:
  assumes "tier_frames choice df n seed th p = Inr (low_df, mid_df, high_df)"
  obtains low mid high where
    "sample_tiers choice (filtered_df_of th df) n seed th = Inr (low, mid, high)"
    "low_df = add_ignorance choice seed p (filter (\<lambda>r. user_id r \<in> set low) (filtered_df_of th df))"
    "mid_df = add_ignorance choice seed p (filter (\<lambda>r. user_id r \<in> set mid) (filtered_df_of th df))"
    "high_df = add_ignorance choice seed p (filter (\<lambda>r. user_id r \<in> set high) (filtered_df_of th df))"
  using assms unfolding tier_frames_def Let_def by (auto split: sum.splits)

lemma tier_frames_Inl:
  "(tier_frames choice df n seed th p = Inl e) =
   (sample_tiers choice (filtered_df_of th df) n seed th = Inl e)"
  unfolding tier_frames_def Let_def by (auto split: sum.splits)

lemma tier_frames_users:
  assumes ok: "choice_ok choice"
    and f: "tier_frames choice df n seed th p = Inr (low_df, mid_df, high_df)"
  obtains low mid high where
    "users_of low_df = set low" "users_of mid_df = set mid" "users_of high_df = set high"
    "distinct low" "distinct mid" "distinct high"
    "set low \<subseteq> set (low_pool th (filtered_df_of th df))"
    "set mid \<subseteq> set (mid_pool th (filtered_df_of th df))"
    "set high \<subseteq> set (high_pool th (filtered_df_of th df))"
    "int (length low) + int (length mid) + int (length high) = n"
proof -
  from f obtain low mid high where
    s: "sample_tiers choice (filtered_df_of th df) n seed th = Inr (low, mid, high)"
    and l: "low_df = add_ignorance choice seed p (filter (\<lambda>r. user_id r \<in> set low) (filtered_df_of th df))"
    and m: "mid_df = add_ignorance choice seed p (filter (\<lambda>r. user_id r \<in> set mid) (filtered_df_of th df))"
    and h: "high_df = add_ignorance choice seed p (filter (\<lambda>r. user_id r \<in> set high) (filtered_df_of th df))"
    by (rule tier_frames_Inr)
  note p = sample_tiers_Inr [OF ok s]
  from p pool_users(1) [of th "filtered_df_of th df"]
  have "users_of low_df = set low"
    unfolding l users_of_add_ignorance by (intro users_of_selection) blast
  moreover from p pool_users(2) [of th "filtered_df_of th df"]
  have "users_of mid_df = set mid"
    unfolding m users_of_add_ignorance by (intro users_of_selection) blast
  moreover from p pool_users(3) [of th "filtered_df_of th df"]
  have "users_of high_df = set high"
    unfolding h users_of_add_ignorance by (intro users_of_selection) blast
  ultimately show thesis
    using p that by blast
qed

lemma tier_frames_row:
  assumes f: "tier_frames choice df n seed th p = Inr (low_df, mid_df, high_df)"
    and r: "r \<in> set low_df \<union> set mid_df \<union> set high_df"
  shows "book_count r = Some (reads_of df (user_id r))"
proof -
  from f obtain low mid high where
    l: "low_df = add_ignorance choice seed p (filter (\<lambda>r. user_id r \<in> set low) (filtered_df_of th df))"
    and m: "mid_df = add_ignorance choice seed p (filter (\<lambda>r. user_id r \<in> set mid) (filtered_df_of th df))"
    and h: "high_df = add_ignorance choice seed p (filter (\<lambda>r. user_id r \<in> set high) (filtered_df_of th df))"
    by (rule tier_frames_Inr)
  from r l m h obtain r0 where "r0 \<in> set (filtered_df_of th df)"
    "user_id r = user_id r0" "book_count r = book_count r0"
    by (auto dest!: add_ignorance_rows)
  then show ?thesis
    using filtered_df_row [of r0 th df] by simp
qed

text \<open>
  C8: with ascending thresholds \<open>t0 \<le> t1\<close> and a generator that draws distinct
  positions, a successful run returns three tier tables whose user sets are pairwise
  disjoint and together hold exactly \<open>n\<close> users; every row of the low table has
  \<open>book_count \<le> t0\<close>, of the mid table \<open>t0 < book_count \<le> t1\<close>, of the high table
  \<open>t1 < book_count \<le> t2\<close>, the count being the number of the user's read rows (users
  above \<open>t2\<close> never enter a pool). The run fails, with ValueError, exactly when \<open>n\<close> is
  negative or a tier's pool is smaller than its share of \<open>n\<close>.
\<close>

theorem sampler_tiers:
  assumes ok: "choice_ok choice" and asc: "t0 \<le> t1"
  shows
    "(case tier_frames choice df n seed (t0, t1, t2) p of
        Inr (low_df, mid_df, high_df) \<Rightarrow>
          users_of low_df \<inter> users_of mid_df = {} \<and>
          users_of low_df \<inter> users_of high_df = {} \<and>
          users_of mid_df \<inter> users_of high_df = {} \<and>
          int (card (users_of (low_df @ mid_df @ high_df))) = n \<and>
          (\<forall>r \<in> set low_df. book_count r = Some (reads_of df (user_id r)) \<and>
             reads_of df (user_id r) \<le> t0) \<and>
          (\<forall>r \<in> set mid_df. book_count r = Some (reads_of df (user_id r)) \<and>
             t0 < reads_of df (user_id r) \<and> reads_of df (user_id r) \<le> t1) \<and>
          (\<forall>r \<in> set high_df. book_count r = Some (reads_of df (user_id r)) \<and>
             t1 < reads_of df (user_id r) \<and> reads_of df (user_id r) \<le> t2) \<and>
          process_df_users_raw choice df n seed (t0, t1, t2) p = Inr (low_df @ mid_df @ high_df)
      | Inl e \<Rightarrow>
          e = ValueError \<and> process_df_users_raw choice df n seed (t0, t1, t2) p = Inl ValueError) \<and>
     (case divide_into_three n of
        (d0, d1, d2) \<Rightarrow>
          (case tier_pools (t0, t1, t2) df of
             (low_users, mid_users, high_users) \<Rightarrow>
               (tier_frames choice df n seed (t0, t1, t2) p = Inl ValueError) =
               (n < 0 \<or> int (length low_users) < d0 \<or> int (length mid_users) < d1 \<or>
                int (length high_users) < d2)))"
proof -
  let ?th = "(t0, t1, t2)"
  let ?res = "tier_frames choice df n seed ?th p"
  have first: "case ?res of
        Inr (low_df, mid_df, high_df) \<Rightarrow>
          users_of low_df \<inter> users_of mid_df = {} \<and>
          users_of low_df \<inter> users_of high_df = {} \<and>
          users_of mid_df \<inter> users_of high_df = {} \<and>
          int (card (users_of (low_df @ mid_df @ high_df))) = n \<and>
          (\<forall>r \<in> set low_df. book_count r = Some (reads_of df (user_id r)) \<and>
             reads_of df (user_id r) \<le> t0) \<and>
          (\<forall>r \<in> set mid_df. book_count r = Some (reads_of df (user_id r)) \<and>
             t0 < reads_of df (user_id r) \<and> reads_of df (user_id r) \<le> t1) \<and>
          (\<forall>r \<in> set high_df. book_count r = Some (reads_of df (user_id r)) \<and>
             t1 < reads_of df (user_id r) \<and> reads_of df (user_id r) \<le> t2) \<and>
          process_df_users_raw choice df n seed ?th p = Inr (low_df @ mid_df @ high_df)
      | Inl e \<Rightarrow>
          e = ValueError \<and> process_df_users_raw choice df n seed ?th p = Inl ValueError"
  proof (cases ?res)
    case (Inl e)
    obtain d0 d1 d2 where d: "divide_into_three n = (d0, d1, d2)"
      by (cases "divide_into_three n") auto
    from Inl have "e = ValueError"
      unfolding tier_frames_Inl sample_tiers_Inl [OF d] by simp
    with Inl show ?thesis
      by (simp add: process_df_users_raw_def)
  next
    case (Inr fr)
    obtain low_df mid_df high_df where fr: "fr = (low_df, mid_df, high_df)"
      by (cases fr) auto
    note f = Inr [unfolded fr]
    from ok f obtain low mid high where
      u: "users_of low_df = set low" "users_of mid_df = set mid" "users_of high_df = set high"
      and dist: "distinct low" "distinct mid" "distinct high"
      and sub: "set low \<subseteq> set (low_pool ?th (filtered_df_of ?th df))"
        "set mid \<subseteq> set (mid_pool ?th (filtered_df_of ?th df))"
        "set high \<subseteq> set (high_pool ?th (filtered_df_of ?th df))"
      and len: "int (length low) + int (length mid) + int (length high) = n"
      by (rule tier_frames_users)
    have lo: "\<And>x. x \<in> set low \<Longrightarrow> reads_of df x \<le> t0"
      using sub(1) low_pool_mem [of _ ?th df] by auto
    have mi: "\<And>x. x \<in> set mid \<Longrightarrow> t0 < reads_of df x \<and> reads_of df x \<le> t1"
      using sub(2) mid_pool_mem [of _ ?th df] by auto
    have hi: "\<And>x. x \<in> set high \<Longrightarrow> t1 < reads_of df x \<and> reads_of df x \<le> t2"
      using sub(3) high_pool_mem [of _ ?th df] by auto
    have lm: "set low \<inter> set mid = {}"
      using lo mi by fastforce
    have lh: "set low \<inter> set high = {}"
      using lo hi asc by fastforce
    have mh: "set mid \<inter> set high = {}"
      using mi hi by fastforce
    have "distinct (low @ mid @ high)"
      using dist lm lh mh by auto
    then have "card (set (low @ mid @ high)) = length (low @ mid @ high)"
      by (rule distinct_card)
    then have card: "int (card (users_of (low_df @ mid_df @ high_df))) = n"
      using len by (simp add: users_of_append u)
    have bc: "\<And>r. r \<in> set low_df \<union> set mid_df \<union> set high_df \<Longrightarrow>
        book_count r = Some (reads_of df (user_id r))"
      using f by (rule tier_frames_row)
    have rl: "\<forall>r \<in> set low_df. book_count r = Some (reads_of df (user_id r)) \<and>
             reads_of df (user_id r) \<le> t0"
      using bc lo u(1) unfolding users_of_def by auto
    have rm: "\<forall>r \<in> set mid_df. book_count r = Some (reads_of df (user_id r)) \<and>
             t0 < reads_of df (user_id r) \<and> reads_of df (user_id r) \<le> t1"
      using bc mi u(2) unfolding users_of_def by auto
    have rh: "\<forall>r \<in> set high_df. book_count r = Some (reads_of df (user_id r)) \<and>
             t1 < reads_of df (user_id r) \<and> reads_of df (user_id r) \<le> t2"
      using bc hi u(3) unfolding users_of_def by auto
    have pr: "process_df_users_raw choice df n seed ?th p = Inr (low_df @ mid_df @ high_df)"
      using f by (simp add: process_df_users_raw_def)
    from lm lh mh have dj: "users_of low_df \<inter> users_of mid_df = {}"
      "users_of low_df \<inter> users_of high_df = {}" "users_of mid_df \<inter> users_of high_df = {}"
      unfolding u by simp_all
    from dj card rl rm rh pr show ?thesis
      unfolding Inr fr by simp
  qed
  have second: "case divide_into_three n of
        (d0, d1, d2) \<Rightarrow>
          (case tier_pools ?th df of
             (low_users, mid_users, high_users) \<Rightarrow>
               (?res = Inl ValueError) =
               (n < 0 \<or> int (length low_users) < d0 \<or> int (length mid_users) < d1 \<or>
                int (length high_users) < d2))"
  proof -
    obtain d0 d1 d2 where d: "divide_into_three n = (d0, d1, d2)"
      by (cases "divide_into_three n") auto
    show ?thesis
      unfolding d tier_pools_def Let_def tier_frames_Inl sample_tiers_Inl [OF d] by simp
  qed
  from first second show ?thesis ..
qed

lemma first_positions_ok: "choice_ok first_positions"
  unfolding choice_ok_def first_positions_def by auto

lemma last_positions_ok: "choice_ok last_positions"
  unfolding choice_ok_def last_positions_def by auto

theorem sampler_tiers_witness:
  "choice_ok first_positions \<and> (1::int) \<le> 2 \<and>
   map_sum id (\<lambda>(l, m, h). (users_of l, users_of m, users_of h))
     (tier_frames first_positions four_readers 3 42 (1, 2, 3) 0) = Inr ({1}, {2}, {3}) \<and>
   int (card {1, 2, 3 :: int}) = 3 \<and>
   tier_frames first_positions four_readers 6 42 (1, 2, 3) 0 = Inl ValueError"
proof -
  have a: "(1::int) \<le> 2" by simp
  have e: "tier_frames first_positions four_readers 3 42 (1, 2, 3) 0 =
      Inr ([set_ignorant (Some False) \<lparr>user_id = 1, book_id = 10, rating = 3, is_read = 1,
              is_reviewed = 0, book_count = Some 1\<rparr>],
           [set_ignorant (Some False) \<lparr>user_id = 2, book_id = 10, rating = 3, is_read = 1,
              is_reviewed = 0, book_count = Some 2\<rparr>,
            set_ignorant (Some False) \<lparr>user_id = 2, book_id = 11, rating = 3, is_read = 1,
              is_reviewed = 0, book_count = Some 2\<rparr>],
           [set_ignorant (Some False) \<lparr>user_id = 3, book_id = 10, rating = 3, is_read = 1,
              is_reviewed = 0, book_count = Some 3\<rparr>,
            set_ignorant (Some False) \<lparr>user_id = 3, book_id = 11, rating = 3, is_read = 1,
              is_reviewed = 0, book_count = Some 3\<rparr>,
            set_ignorant (Some False) \<lparr>user_id = 3, book_id = 12, rating = 3, is_read = 1,
              is_reviewed = 0, book_count = Some 3\<rparr>])"
    by code_simp
  have f: "tier_frames first_positions four_readers 6 42 (1, 2, 3) 0 = Inl ValueError"
    by code_simp
  from sampler_tiers [OF first_positions_ok a, of four_readers 3 42 3 0]
    sampler_tiers [OF first_positions_ok a, of four_readers 6 42 3 0]
  show ?thesis
    unfolding e f by (simp add: first_positions_ok users_of_def)
qed

subsection \<open>What the samples depend on\<close>

lemma sample_tiers_pools:
  assumes "low_pool th a = low_pool th b" and "mid_pool th a = mid_pool th b"
    and "high_pool th a = high_pool th b"
  shows "sample_tiers choice a n seed th = sample_tiers choice b n seed th"
  unfolding sample_tiers_def assms ..

lemma selection_unique_users:
  assumes pool: "pool = drop_duplicates (map user_id (filter (\<lambda>r. Q (user_id r)) fdf))"
    and sub: "set s \<subseteq> set pool"
  shows "drop_duplicates (map user_id (filter (\<lambda>r. user_id r \<in> set s) fdf)) =
         filter (\<lambda>u. u \<in> set s) pool"
proof -
  have m: "\<And>P. map user_id (filter (\<lambda>r. P (user_id r)) fdf) = filter P (map user_id fdf)"
    by (simp add: filter_map comp_def)
  have p: "pool = filter Q (drop_duplicates (map user_id fdf))"
    unfolding pool m drop_duplicates_filter ..
  from sub have q: "\<And>u. u \<in> set s \<Longrightarrow> Q u"
    unfolding p by auto
  have "filter (\<lambda>u. u \<in> set s) pool =
        filter (\<lambda>u. u \<in> set s) (drop_duplicates (map user_id fdf))"
    unfolding p using q by (auto intro: filter_cong)
  then show ?thesis
    unfolding m [of "\<lambda>u. u \<in> set s"] drop_duplicates_filter by simp
qed

lemma low_pool_by_reads:
  "low_pool th (filtered_df_of th df) =
   drop_duplicates (map user_id
     (filter (\<lambda>r. reads_of df (user_id r) \<le> fst th) (filtered_df_of th df)))"
proof -
  have "filter (\<lambda>r. nan_le (book_count r) (fst th)) (filtered_df_of th df) =
        filter (\<lambda>r. reads_of df (user_id r) \<le> fst th) (filtered_df_of th df)"
    by (rule filter_cong) (auto simp: nan_le_def dest: filtered_df_row)
  then show ?thesis
    unfolding low_pool_def by simp
qed

lemma mid_pool_by_reads:
  "mid_pool th (filtered_df_of th df) =
   drop_duplicates (map user_id
     (filter (\<lambda>r. reads_of df (user_id r) \<le> fst (snd th) \<and> fst th < reads_of df (user_id r))
        (filtered_df_of th df)))"
proof -
  have "filter (\<lambda>r. nan_le (book_count r) (fst (snd th)) \<and> nan_gt (book_count r) (fst th))
          (filtered_df_of th df) =
        filter (\<lambda>r. reads_of df (user_id r) \<le> fst (snd th) \<and> fst th < reads_of df (user_id r))
          (filtered_df_of th df)"
    by (rule filter_cong) (auto simp: nan_le_def nan_gt_def dest: filtered_df_row)
  then show ?thesis
    unfolding mid_pool_def by simp
qed

lemma high_pool_by_reads:
  "high_pool th (filtered_df_of th df) =
   drop_duplicates (map user_id
     (filter (\<lambda>r. fst (snd th) < reads_of df (user_id r)) (filtered_df_of th df)))"
proof -
  have "filter (\<lambda>r. nan_gt (book_count r) (fst (snd th))) (filtered_df_of th df) =
        filter (\<lambda>r. fst (snd th) < reads_of df (user_id r)) (filtered_df_of th df)"
    by (rule filter_cong) (auto simp: nan_gt_def dest: filtered_df_row)
  then show ?thesis
    unfolding high_pool_def by simp
qed

lemma flags_of_add_ignorance:
  assumes "drop_duplicates (map user_id a) = drop_duplicates (map user_id b)"
  shows "flags_of (add_ignorance choice seed p a) = flags_of (add_ignorance choice seed p b)"
proof -
  have nm: "naiveness_map choice seed p a = naiveness_map choice seed p b"
    unfolding naiveness_map_def assms ..
  have "set (map user_id a) = set (map user_id b)"
    using assms set_drop_duplicates by metis
  then have us: "user_id ` set a = user_id ` set b"
    by simp
  have fa: "\<And>sub g. (\<lambda>r. (user_id r, ignorant r)) ` set (map (\<lambda>r. set_ignorant (g (user_id r)) r) sub) =
      (\<lambda>u. (u, g u)) ` (user_id ` set sub)"
    by (auto simp: image_iff)
  show ?thesis
  proof (cases "p = 0")
    case True
    then show ?thesis
      using fa [of "\<lambda>u. Some False"] us by (simp add: flags_of_def add_ignorance_def)
  next
    case False
    then show ?thesis
      using fa [of "map_of (naiveness_map choice seed p b)"] us nm
      by (simp add: flags_of_def add_ignorance_def Let_def)
  qed
qed

text \<open>
  C2, as stated: the result does not depend on the row order of the input. pandas
  samples positions, so the order of first appearance decides who is drawn. The two
  tables below hold the same two rows in opposite orders; one user is sampled from a
  pool of two, and whichever position the generator draws (the first or the last),
  the two runs sample different users.
\<close>

theorem sampler_row_order_counterexample:
  "set (rev two_readers) = set two_readers \<and>
   map_sum id (\<lambda>(l, m, h). users_of l)
     (tier_frames first_positions two_readers 1 42 (5, 20, 50) 0) = Inr {1} \<and>
   map_sum id (\<lambda>(l, m, h). users_of l)
     (tier_frames first_positions (rev two_readers) 1 42 (5, 20, 50) 0) = Inr {2} \<and>
   map_sum id (\<lambda>(l, m, h). users_of l)
     (tier_frames last_positions two_readers 1 42 (5, 20, 50) 0) = Inr {2} \<and>
   map_sum id (\<lambda>(l, m, h). users_of l)
     (tier_frames last_positions (rev two_readers) 1 42 (5, 20, 50) 0) = Inr {1}"
proof -
  have a: "tier_frames first_positions two_readers 1 42 (5, 20, 50) 0 =
      Inr ([set_ignorant (Some False) \<lparr>user_id = 1, book_id = 10, rating = 3, is_read = 1,
              is_reviewed = 0, book_count = Some 1\<rparr>], [], [])"
    by code_simp
  have b: "tier_frames first_positions (rev two_readers) 1 42 (5, 20, 50) 0 =
      Inr ([set_ignorant (Some False) \<lparr>user_id = 2, book_id = 10, rating = 3, is_read = 1,
              is_reviewed = 0, book_count = Some 1\<rparr>], [], [])"
    by code_simp
  have c: "tier_frames last_positions two_readers 1 42 (5, 20, 50) 0 =
      Inr ([set_ignorant (Some False) \<lparr>user_id = 2, book_id = 10, rating = 3, is_read = 1,
              is_reviewed = 0, book_count = Some 1\<rparr>], [], [])"
    by code_simp
  have d: "tier_frames last_positions (rev two_readers) 1 42 (5, 20, 50) 0 =
      Inr ([set_ignorant (Some False) \<lparr>user_id = 1, book_id = 10, rating = 3, is_read = 1,
              is_reviewed = 0, book_count = Some 1\<rparr>], [], [])"
    by code_simp
  show ?thesis
    unfolding a b c d by (simp add: users_of_def)
qed

text \<open>
  C2, amended: two runs with the same seed on tables whose eligible users appear in the
  same order of first occurrence in each tier (equal tier pools) raise the same error
  or sample the same users in each tier and give them the same ignorant flags, though
  the tables may differ in their other rows and columns.
\<close>

theorem sampler_deterministic:
  assumes ok: "choice_ok choice" and pools: "tier_pools th df = tier_pools th df'"
  shows "map_sum id (\<lambda>(l, m, h). (flags_of l, flags_of m, flags_of h))
           (tier_frames choice df n seed th p) =
         map_sum id (\<lambda>(l, m, h). (flags_of l, flags_of m, flags_of h))
           (tier_frames choice df' n seed th p)"
proof -
  let ?a = "filtered_df_of th df" and ?b = "filtered_df_of th df'"
  from pools have pl: "low_pool th ?a = low_pool th ?b"
    and pm: "mid_pool th ?a = mid_pool th ?b" and ph: "high_pool th ?a = high_pool th ?b"
    unfolding tier_pools_def Let_def by simp_all
  have st: "sample_tiers choice ?a n seed th = sample_tiers choice ?b n seed th"
    using pl pm ph by (rule sample_tiers_pools)
  show ?thesis
  proof (cases "sample_tiers choice ?a n seed th")
    case (Inl e)
    from Inl st have "sample_tiers choice ?b n seed th = Inl e"
      by simp
    with Inl show ?thesis
      unfolding tier_frames_def Let_def by simp
  next
    case (Inr s)
    obtain low mid high where s: "s = (low, mid, high)"
      by (cases s) auto
    note sa = Inr [unfolded s]
    from sample_tiers_Inr [OF ok sa]
    have sub: "set low \<subseteq> set (low_pool th ?a)" "set mid \<subseteq> set (mid_pool th ?a)"
      "set high \<subseteq> set (high_pool th ?a)"
      by simp_all
    have ul: "drop_duplicates (map user_id (filter (\<lambda>r. user_id r \<in> set low) ?a)) =
              drop_duplicates (map user_id (filter (\<lambda>r. user_id r \<in> set low) ?b))"
      using selection_unique_users [OF low_pool_by_reads sub(1)]
        selection_unique_users [OF low_pool_by_reads sub(1) [unfolded pl]] pl
      by simp
    have um: "drop_duplicates (map user_id (filter (\<lambda>r. user_id r \<in> set mid) ?a)) =
              drop_duplicates (map user_id (filter (\<lambda>r. user_id r \<in> set mid) ?b))"
      using selection_unique_users [OF mid_pool_by_reads sub(2)]
        selection_unique_users [OF mid_pool_by_reads sub(2) [unfolded pm]] pm
      by simp
    have uh: "drop_duplicates (map user_id (filter (\<lambda>r. user_id r \<in> set high) ?a)) =
              drop_duplicates (map user_id (filter (\<lambda>r. user_id r \<in> set high) ?b))"
      using selection_unique_users [OF high_pool_by_reads sub(3)]
        selection_unique_users [OF high_pool_by_reads sub(3) [unfolded ph]] ph
      by simp
    from sa st have sb: "sample_tiers choice ?b n seed th = Inr (low, mid, high)"
      by simp
    show ?thesis
      unfolding tier_frames_def Let_def sa sb
      by (simp add: flags_of_add_ignorance [OF ul] flags_of_add_ignorance [OF um]
          flags_of_add_ignorance [OF uh])
  qed
qed

theorem sampler_deterministic_witness:
  "choice_ok last_positions \<and>
   tier_pools (5, 20, 50) two_readers = tier_pools (5, 20, 50) two_readers_more_rows \<and>
   map_sum id (\<lambda>(l, m, h). (flags_of l, flags_of m, flags_of h))
     (tier_frames last_positions two_readers 1 42 (5, 20, 50) 1) =
   map_sum id (\<lambda>(l, m, h). (flags_of l, flags_of m, flags_of h))
     (tier_frames last_positions two_readers_more_rows 1 42 (5, 20, 50) 1) \<and>
   map_sum id (\<lambda>(l, m, h). (flags_of l, flags_of m, flags_of h))
     (tier_frames last_positions two_readers 1 42 (5, 20, 50) 1) =
   Inr ({(2, Some True)}, {}, {})"
proof -
  have p: "tier_pools (5, 20, 50) two_readers = tier_pools (5, 20, 50) two_readers_more_rows"
    by code_simp
  have e: "tier_frames last_positions two_readers 1 42 (5, 20, 50) 1 =
      Inr ([set_ignorant (Some True) \<lparr>user_id = 2, book_id = 10, rating = 3, is_read = 1,
              is_reviewed = 0, book_count = Some 1\<rparr>], [], [])"
    by code_simp
  from sampler_deterministic [OF last_positions_ok p, of 1 42 1] p show ?thesis
    unfolding e by (simp add: last_positions_ok flags_of_def)
qed

text \<open>
  The row-order dependence does not hinge on the generator: every generator that draws
  distinct positions samples different users from the two orders of \<open>two_readers\<close>.
\<close>

lemma pools_two: "tier_pools (5, 20, 50) two_readers = ([1, 2], [], [])"
  "tier_pools (5, 20, 50) (rev two_readers) = ([2, 1], [], [])"
  by code_simp+

lemma fdf_two: "filtered_df_of (5, 20, 50) two_readers =
  [\<lparr>user_id = 1, book_id = 10, rating = 3, is_read = 1, is_reviewed = 0, book_count = Some 1\<rparr>,
   \<lparr>user_id = 2, book_id = 10, rating = 3, is_read = 1, is_reviewed = 0, book_count = Some 1\<rparr>]"
  "filtered_df_of (5, 20, 50) (rev two_readers) =
  [\<lparr>user_id = 2, book_id = 10, rating = 3, is_read = 1, is_reviewed = 0, book_count = Some 1\<rparr>,
   \<lparr>user_id = 1, book_id = 10, rating = 3, is_read = 1, is_reviewed = 0, book_count = Some 1\<rparr>]"
  by code_simp+

lemma sampler_row_order_any_generator:
  assumes ok: "choice_ok choice"
  shows "map_sum id (\<lambda>(l, m, h). users_of l)
           (tier_frames choice two_readers 1 seed (5, 20, 50) 0) \<noteq>
         map_sum id (\<lambda>(l, m, h). users_of l)
           (tier_frames choice (rev two_readers) 1 seed (5, 20, 50) 0)"
proof -
  from ok have c0: "choice seed 0 0 = []"
    unfolding choice_ok_def by (metis le_refl length_0_conv)
  from ok have "length (choice seed 2 1) = 1" "\<forall>i \<in> set (choice seed 2 1). i < 2"
    unfolding choice_ok_def by (metis one_le_numeral)+
  then obtain i where c1: "choice seed 2 1 = [i]" and i: "i < 2"
    by (cases "choice seed 2 1") auto
  from i have "i = 0 \<or> i = 1" by auto
  from c1 have c1': "choice seed (Suc (Suc 0)) (Suc 0) = [i]"
    by (simp add: numeral_2_eq_2)
  have d: "divide_into_three 1 = (1, 0, 0)"
    by (simp add: divide_into_three_def)
  from pools_two have p: "low_pool (5, 20, 50) (filtered_df_of (5, 20, 50) two_readers) = [1, 2]"
    "mid_pool (5, 20, 50) (filtered_df_of (5, 20, 50) two_readers) = []"
    "high_pool (5, 20, 50) (filtered_df_of (5, 20, 50) two_readers) = []"
    "low_pool (5, 20, 50) (filtered_df_of (5, 20, 50) (rev two_readers)) = [2, 1]"
    "mid_pool (5, 20, 50) (filtered_df_of (5, 20, 50) (rev two_readers)) = []"
    "high_pool (5, 20, 50) (filtered_df_of (5, 20, 50) (rev two_readers)) = []"
    unfolding tier_pools_def Let_def by simp_all
  have s1: "sample_tiers choice (filtered_df_of (5, 20, 50) two_readers) 1 seed (5, 20, 50) =
      Inr ([[1, 2] ! i], [], [])"
    unfolding sample_tiers_def d p by (simp add: pd_sample_def take_positions_def c0 c1')
  have s2: "sample_tiers choice (filtered_df_of (5, 20, 50) (rev two_readers)) 1 seed (5, 20, 50) =
      Inr ([[2, 1] ! i], [], [])"
    unfolding sample_tiers_def d p by (simp add: pd_sample_def take_positions_def c0 c1')
  have t1: "map_sum id (\<lambda>(l, m, h). users_of l)
      (tier_frames choice two_readers 1 seed (5, 20, 50) 0) = Inr {[1, 2] ! i}"
    unfolding tier_frames_def Let_def s1 using \<open>i = 0 \<or> i = 1\<close>
    by (auto simp: fdf_two users_of_def add_ignorance_def)
  have t2: "map_sum id (\<lambda>(l, m, h). users_of l)
      (tier_frames choice (rev two_readers) 1 seed (5, 20, 50) 0) = Inr {[2, 1] ! i}"
    unfolding tier_frames_def Let_def s2 using \<open>i = 0 \<or> i = 1\<close>
    by (auto simp: fdf_two users_of_def add_ignorance_def)
  from \<open>i = 0 \<or> i = 1\<close> show ?thesis
    unfolding t1 t2 by auto
qed

section \<open>Book scores\<close>

lemma select_item_Inr:
  "select_item df_items b = Inr it \<Longrightarrow> it \<in> set df_items \<and> item_id it = b"
proof -
  assume a: "select_item df_items b = Inr it"
  then have "filter (\<lambda>x. item_id x = b) df_items = [it]"
    by (auto simp: select_item_def split: list.splits)
  then have "it \<in> set (filter (\<lambda>x. item_id x = b) df_items)"
    by simp
  then show ?thesis by simp
qed




text \<open>
  The run succeeds when every book of the list has exactly one item row with a numeric
  priority and the vectors have the same, non-zero number of entries.
\<close>

lemma score_books_defined:
  assumes "\<forall>b \<in> set bs. \<exists>it pr. select_item df_items b = Inr it \<and> item_priority it = Some pr \<and>
             length (item_vector it) = length user_vector"
    and "user_vector \<noteq> []"
  shows "\<exists>d. score_books user_vector df_items books bs = Inr d"
  using assms
proof (induction bs arbitrary: books)
  case Nil
  then show ?case by simp
next
  case (Cons b rest)
  from Cons.prems obtain it pr where it: "select_item df_items b = Inr it"
    "item_priority it = Some pr" "length (item_vector it) = length user_vector"
    by auto
  from it(3) Cons.prems(2) obtain s where s: "cosine_similarity user_vector (item_vector it) = Inr s"
    by (auto simp: cosine_similarity_def)
  from Cons.prems have rest: "\<forall>b \<in> set rest. \<exists>it pr. select_item df_items b = Inr it \<and>
      item_priority it = Some pr \<and> length (item_vector it) = length user_vector"
    by simp
  from Cons.IH [OF rest Cons.prems(2)] it s show ?case
    by simp
qed

section \<open>The similarity matrix\<close>

text \<open>
  C4: no NaN appears in the mappings \<open>matrix_cosine_similarity\<close> returns, a zero vector
  among the inputs included. The code divides each row by its norm without a guard:
  for one all-zero reference vector and one item, every entry of the normalised row is
  \<open>0 / 0\<close>, and the mapping returned for that row holds NaN. The other scoring path of
  the same file, sklearn's \<open>cosine_similarity\<close> in \<open>calculate_book_score\<close>, returns 0
  for the same pair of vectors.
\<close>

theorem matrix_cosine_similarity_zero_vector:
  "matrix_cosine_similarity [zero_vector] [(7, unit_vector)] 1 = Inr [[(7, NaN)]] \<and>
   matrix_cosine_similarity [unit_vector] [(7, unit_vector), (8, zero_vector)] 2 =
     Inr [[(7, Fin 1), (8, NaN)]] \<and>
   cosine_similarity zero_vector unit_vector = Inr 0"
  by (simp add: matrix_cosine_similarity_def reshape16_def np_stack_def normalize_rows_def
      zero_vector_def unit_vector_def np_norm_def np_div_def np_dot_def to_dict_def
      sorted_by_value_reverse_def py_slice_to_def cosine_similarity_def sk_normalize_def)

theorem matrix_cosine_similarity_zero_vector_witness:
  "(case matrix_cosine_similarity [zero_vector] [(7, unit_vector)] 1 of
      Inl e \<Rightarrow> []
    | Inr rows \<Rightarrow> map (map (\<lambda>kv. is_nan (snd kv))) rows) = [[True]]"
  using matrix_cosine_similarity_zero_vector by simp

text \<open>
  The same holds for every input: whenever the function returns and a reference vector
  is all zeros, every value of the mapping of that row is NaN, and the mapping is not
  empty when \<open>n\<close> is positive.
\<close>

lemma collect_reshape16:
  "collect reshape16 vs = Inr ws \<Longrightarrow> ws = vs \<and> (\<forall>v \<in> set vs. length v = 16)"
proof (induction vs arbitrary: ws)
  case Nil
  then show ?case by simp
next
  case (Cons v vs)
  then show ?case
    by (auto simp: reshape16_def split: sum.splits if_splits)
qed

lemma sum_squares_zero: "\<forall>x \<in> set v. x = 0 \<Longrightarrow> sum_list (map (\<lambda>x. x * x) v) = (0::real)"
  by (induction v) auto

lemma foldl_np_add_NaN: "foldl np_add NaN xs = NaN"
  by (induction xs) simp_all

lemma np_add_NaN_right: "np_add x NaN = NaN"
  by (cases x) simp_all

lemma np_dot_NaN_row:
  assumes "\<forall>x \<in> set a. x = NaN" and "a \<noteq> []" and "b \<noteq> []"
  shows "np_dot a b = NaN"
proof -
  from assms obtain a' b' y where a: "a = NaN # a'" and b: "b = y # b'"
    by (cases a; cases b) auto
  show ?thesis
    unfolding np_dot_def a b by (simp add: foldl_np_add_NaN)
qed

lemma set_to_dict: "set (to_dict xs) \<subseteq> set xs"
proof -
  have "set (foldl (\<lambda>d item. dict_set (fst item) (snd item) d) acc xs) \<subseteq> set acc \<union> set xs"
    for acc :: "('a \<times> 'b) list"
  proof (induction xs arbitrary: acc)
    case Nil
    then show ?case by simp
  next
    case (Cons x xs)
    have "set (dict_set (fst x) (snd x) acc) \<subseteq> insert x (set acc)"
      using set_dict_set [of "fst x" "snd x" acc] by simp
    with Cons.IH [of "dict_set (fst x) (snd x) acc"] show ?case
      by auto
  qed
  from this [of "[]"] show ?thesis
    by (simp add: to_dict_def)
qed

lemma to_dict_nonempty: "xs \<noteq> [] \<Longrightarrow> to_dict xs \<noteq> []"
proof -
  have d: "dict_set k v d \<noteq> []" for k :: 'a and v :: 'b and d
    by (cases d) auto
  have "acc \<noteq> [] \<Longrightarrow> foldl (\<lambda>d item. dict_set (fst item) (snd item) d) acc xs \<noteq> []"
    for acc :: "('a \<times> 'b) list" and xs
    by (induction xs arbitrary: acc) (simp_all add: d)
  then show "xs \<noteq> [] \<Longrightarrow> to_dict xs \<noteq> []"
    by (cases xs) (simp_all add: to_dict_def d)
qed

lemma set_insert_by_value: "set (insert_by_value x ys) = insert x (set ys)"
  by (induction ys) auto

lemma set_sorted_by_value_reverse: "set (sorted_by_value_reverse xs) = set xs"
proof -
  have "set (foldl (\<lambda>acc x. insert_by_value x acc) acc ys) = set acc \<union> set ys"
    for acc ys :: "('a \<times> npfloat) list"
    by (induction ys arbitrary: acc) (auto simp: set_insert_by_value)
  from this [of "[]" "rev xs"] show ?thesis
    by (simp add: sorted_by_value_reverse_def)
qed

lemma set_py_slice_to: "set (py_slice_to xs n) \<subseteq> set xs"
  by (auto simp: py_slice_to_def dest: in_set_takeD)

lemma py_slice_to_nonempty: "xs \<noteq> [] \<Longrightarrow> 0 < n \<Longrightarrow> py_slice_to xs n \<noteq> []"
  by (cases xs) (auto simp: py_slice_to_def take_Cons' nat_le_0)

lemma matrix_cosine_similarity_zero_reference:
  assumes run: "matrix_cosine_similarity df_reference df_compare n = Inr rows"
    and i: "i < length df_reference"
    and zero: "\<forall>x \<in> set (df_reference ! i). x = 0"
  shows "i < length rows \<and> (\<forall>kv \<in> set (rows ! i). is_nan (snd kv)) \<and> (0 < n \<longrightarrow> rows ! i \<noteq> [])"
proof -
  define cmp where "cmp = normalize_rows (map snd df_compare)"
  define sims where "sims = (\<lambda>r. map (\<lambda>c. np_dot r c) cmp)"
  define fin where "fin = (\<lambda>s. to_dict (py_slice_to
      (sorted_by_value_reverse (to_dict (zip (map fst df_compare) s))) n))"
  from run obtain a b where a: "collect reshape16 df_reference = Inr a"
    and b: "collect reshape16 (map snd df_compare) = Inr b"
    unfolding matrix_cosine_similarity_def by (auto split: sum.splits)
  from collect_reshape16 [OF a] have a': "a = df_reference"
    and la: "\<forall>v \<in> set df_reference. length v = 16"
    by simp_all
  from collect_reshape16 [OF b] have b': "b = map snd df_compare"
    and lb: "\<forall>v \<in> set (map snd df_compare). length v = 16"
    by simp_all
  from run a b have ne: "df_compare \<noteq> []"
    and rows: "rows = map (\<lambda>r. fin (sims r)) (normalize_rows df_reference)"
    unfolding matrix_cosine_similarity_def a' b' np_stack_def Let_def fin_def sims_def cmp_def
    by (auto split: if_splits simp: comp_def)
  let ?row = "df_reference ! i"
  from la i have len: "length ?row = 16"
    by simp
  have "sum_list (map (\<lambda>x. x * x) ?row) = 0"
    using zero by (rule sum_squares_zero)
  then have nz: "np_norm ?row = 0"
    by (simp add: np_norm_def)
  have nrow: "normalize_rows df_reference ! i = map (\<lambda>x. np_div x 0) ?row"
    using i nz by (simp add: normalize_rows_def)
  have allnan: "\<forall>x \<in> set (normalize_rows df_reference ! i). x = NaN"
    unfolding nrow using zero by (auto simp: np_div_def)
  have nonempty: "normalize_rows df_reference ! i \<noteq> []"
    unfolding nrow using len by auto
  have cne: "\<forall>c \<in> set cmp. c \<noteq> []"
    unfolding cmp_def normalize_rows_def using lb by auto
  have s: "\<forall>x \<in> set (sims (normalize_rows df_reference ! i)). x = NaN"
    unfolding sims_def using np_dot_NaN_row [OF allnan nonempty] cne by auto
  have ri: "rows ! i = fin (sims (normalize_rows df_reference ! i))"
    unfolding rows using i by (simp add: normalize_rows_def)
  have len_rows: "i < length rows"
    unfolding rows using i by (simp add: normalize_rows_def)
  have vals: "\<forall>kv \<in> set (rows ! i). is_nan (snd kv)"
  proof
    fix kv
    assume "kv \<in> set (rows ! i)"
    then have "kv \<in> set (zip (map fst df_compare) (sims (normalize_rows df_reference ! i)))"
      unfolding ri fin_def
      using set_to_dict set_py_slice_to set_sorted_by_value_reverse
      by (metis subsetD)
    then have "snd kv \<in> set (sims (normalize_rows df_reference ! i))"
      by (metis in_set_zipE prod.collapse)
    with s have "snd kv = NaN"
      by blast
    then show "is_nan (snd kv)"
      by simp
  qed
  have "rows ! i \<noteq> []" if "0 < n"
  proof -
    have "length (sims (normalize_rows df_reference ! i)) = length df_compare"
      by (simp add: sims_def cmp_def normalize_rows_def)
    with ne have "zip (map fst df_compare) (sims (normalize_rows df_reference ! i)) \<noteq> []"
      by (cases df_compare; cases "sims (normalize_rows df_reference ! i)") auto
    then have "to_dict (zip (map fst df_compare) (sims (normalize_rows df_reference ! i))) \<noteq> []"
      by (rule to_dict_nonempty)
    then have "sorted_by_value_reverse
        (to_dict (zip (map fst df_compare) (sims (normalize_rows df_reference ! i)))) \<noteq> []"
      using set_sorted_by_value_reverse by (metis set_empty)
    then show ?thesis
      unfolding ri fin_def using that by (intro to_dict_nonempty py_slice_to_nonempty)
  qed
  with len_rows vals show ?thesis
    by blast
qed

section \<open>The users table\<close>








end
